theory Spec2Isabelle
  imports Complex_Main
begin

section \<open>The synchronisation core of the P2P sync player (src/App.tsx)\<close>

text \<open>
  The component \<^verbatim>\<open>App\<close> keeps its protocol state in React refs and reacts to callbacks
  of the peer library, of the browser's timers and of the user interface. The model is one
  record for the refs and for the part of the environment the callbacks read and write
  (connections, timers, the two video elements), one function per handler of the source,
  and a function \<open>step\<close> that dispatches an event to its handlers.

  Idealisations, all on the side of the environment: a JavaScript number is a real number,
  a NaN or an infinity (no rounding); a timer fires in the millisecond it is due; assigning
  \<^verbatim>\<open>currentTime\<close> stores the value (the element's clamping to its seekable range is not
  modelled); a click and the render that follows it are one step. The display-only React
  state (\<^verbatim>\<open>status\<close>, \<^verbatim>\<open>myId\<close>, the unused \<^verbatim>\<open>isHost\<close> state) and the SDP rewriting of the
  call options are left out: no handler of the synchronisation core reads them.
\<close>

subsection \<open>JavaScript numbers\<close>

datatype jsnum = Num real | NaN | PosInf | NegInf

fun js_sub :: "jsnum \<Rightarrow> jsnum \<Rightarrow> jsnum" where
  "js_sub (Num a) (Num b) = Num (a - b)"
| "js_sub NaN _ = NaN"
| "js_sub _ NaN = NaN"
| "js_sub (Num _) PosInf = NegInf"
| "js_sub (Num _) NegInf = PosInf"
| "js_sub PosInf (Num _) = PosInf"
| "js_sub NegInf (Num _) = NegInf"
| "js_sub PosInf PosInf = NaN"
| "js_sub NegInf NegInf = NaN"
| "js_sub PosInf NegInf = PosInf"
| "js_sub NegInf PosInf = NegInf"

fun Math_abs :: "jsnum \<Rightarrow> jsnum" where
  "Math_abs (Num a) = Num \<bar>a\<bar>"
| "Math_abs NaN = NaN"
| "Math_abs PosInf = PosInf"
| "Math_abs NegInf = PosInf"

text \<open>The operator \<^verbatim>\<open>></\<close>: every comparison with NaN is false.\<close>

fun js_gt :: "jsnum \<Rightarrow> jsnum \<Rightarrow> bool" where
  "js_gt (Num a) (Num b) = (b < a)"
| "js_gt NaN _ = False"
| "js_gt _ NaN = False"
| "js_gt PosInf PosInf = False"
| "js_gt PosInf _ = True"
| "js_gt NegInf _ = False"
| "js_gt (Num _) PosInf = False"
| "js_gt (Num _) NegInf = True"

subsection \<open>Commands on the wire\<close>

datatype cmd_type = PLAY | PAUSE | SEEK | HEARTBEAT

text \<open>A command as \<^verbatim>\<open>sendCommand\<close> and the heartbeat build it: well typed.\<close>

record SyncCommand =
  ctype :: cmd_type
  timestamp :: real

text \<open>
  What arrives is \<^verbatim>\<open>data: any\<close>, cast to \<^verbatim>\<open>SyncCommand\<close> and never inspected. The handlers
  read its \<^verbatim>\<open>type\<close> only through \<^verbatim>\<open>===\<close> against string literals, so a \<^verbatim>\<open>type\<close> that is
  not a string behaves as a missing one. They read its \<^verbatim>\<open>timestamp\<close> only through the
  subtraction and the \<^verbatim>\<open>currentTime\<close> setter, which both convert to a number first.
  \<open>TsNonNumeric\<close> stands for a string that is no numeric literal, such as \<^verbatim>\<open>"abc"\<close>:
  the conversion gives NaN, as it does for a missing field. (A string that is a numeric
  literal converts to its number and is a \<open>TsNum\<close> here.)
\<close>

datatype wire_type = TypeStr string | TypeMissing

datatype wire_ts = TsNum jsnum | TsNonNumeric string | TsMissing

fun to_number :: "wire_ts \<Rightarrow> jsnum" where
  "to_number (TsNum n) = n"
| "to_number (TsNonNumeric _) = NaN"
| "to_number TsMissing = NaN"

record raw_cmd =
  rtype :: wire_type
  rtimestamp :: wire_ts

text \<open>\<open>DNull\<close> is a \<^verbatim>\<open>null\<close> or \<^verbatim>\<open>undefined\<close> message: reading a property of it throws.\<close>

datatype wire_data = DObj raw_cmd | DNull



subsection \<open>The environment: video elements, connections, timers\<close>

text \<open>
  A video element: its position, whether it is paused, whether it has a source, and
  \<open>seeks\<close>, the number of times the program has assigned \<^verbatim>\<open>currentTime\<close>.
\<close>

record video =
  currentTime :: real
  paused :: bool
  has_source :: bool
  seeks :: nat

definition new_video :: video where
  "new_video = \<lparr>currentTime = 0, paused = True, has_source = False, seeks = 0\<rparr>"

text \<open>
  The \<^verbatim>\<open>currentTime\<close> setter takes a finite number and throws a TypeError on any other
  (\<open>None\<close>).
\<close>

definition set_currentTime :: "wire_ts \<Rightarrow> video \<Rightarrow> video option" where
  "set_currentTime t v =
     (case to_number t of
        Num r \<Rightarrow> Some (v\<lparr>currentTime := r, seeks := Suc (seeks v)\<rparr>)
      | NaN \<Rightarrow> None
      | PosInf \<Rightarrow> None
      | NegInf \<Rightarrow> None)"

datatype conn_state = Connecting | Opened | Closed

text \<open>
  A data connection of the peer library: \<open>handlers\<close> says that \<^verbatim>\<open>setupDataConnection\<close> has
  registered its four handlers on it, \<open>inbound\<close> that it came through
  \<^verbatim>\<open>peer.on('connection')\<close>, \<open>sent\<close> lists what was passed to its \<^verbatim>\<open>send\<close>.
\<close>

record conn =
  peer :: string
  cstate :: conn_state
  inbound :: bool
  handlers :: bool
  sent :: "SyncCommand list"

text \<open>
  A pending timer, with its handle and the millisecond it is due: \<open>Timeout\<close> is the one
  \<^verbatim>\<open>setTimeout\<close> callback of the program (it clears \<^verbatim>\<open>isRemoteOp\<close>), \<open>Interval\<close> the one
  \<^verbatim>\<open>setInterval\<close> callback (the heartbeat tick).
\<close>

datatype timer = Timeout nat nat | Interval nat nat

fun timer_id :: "timer \<Rightarrow> nat" where
  "timer_id (Timeout i _) = i"
| "timer_id (Interval i _) = i"


fun is_interval :: "timer \<Rightarrow> bool" where
  "is_interval (Timeout _ _) = False"
| "is_interval (Interval _ _) = True"

datatype view = LANDING | HOST | CLIENT

datatype capture = CaptureThrows | Captured nat

text \<open>The messages of \<^verbatim>\<open>addLog\<close>, with the interpolated values as arguments.\<close>

datatype log_msg =
    Ready | My_Peer_ID | Calling_client | Error_capturing_stream | Receiving_call | Peer_error
  | Received wire_type | DataConnection_Open | Connection_closed | DataConn_error
  | Heartbeat_started | Heartbeat_stopped
  | Exec wire_type | Drift jsnum | Syncing_drift jsnum
  | Sending cmd_type | Send_Fail_No_Conn | Send_Fail_Conn_Closed | Send_Skip_RemoteOp
  | Call_closed | Call_error | Received_remote_stream | Autoplay_failed
  | Error_Non_MP4 | Video_loaded nat nat | Late_video_load
  | Connecting_to string | Connected_to_Host
  | Restarting_stream | Captured_stream nat | Track_0 | Error_restarting

record app =
  view :: view
  isHost :: bool
  videoRef :: "video option"
  remoteVideoRef :: "video option"
  peerRef :: bool
  remoteId :: string
  conns :: "nat \<Rightarrow> conn option"
  next_conn :: nat
  dataConnRef :: "nat option"
  isRemoteOp :: bool
  heartbeatInterval :: "nat option"
  timers :: "timer list"
  next_timer :: nat
  now :: nat
  calls :: "string list"
  logs :: "log_msg list"
  uncaught :: nat

text \<open>
  The state after the first render: every ref has its initial value; timer handles start
  at 1, as the browser's do.
\<close>

definition init :: app where
  "init = \<lparr>view = LANDING, isHost = False, videoRef = None, remoteVideoRef = None,
     peerRef = False, remoteId = [], conns = (\<lambda>_. None), next_conn = 0, dataConnRef = None,
     isRemoteOp = False, heartbeatInterval = None, timers = [], next_timer = 1, now = 0,
     calls = [], logs = [], uncaught = 0\<rparr>"

definition addLog :: "log_msg \<Rightarrow> app \<Rightarrow> app" where
  "addLog m s = s\<lparr>logs := logs s @ [m]\<rparr>"

definition conn_open :: "app \<Rightarrow> nat \<Rightarrow> bool" where
  "conn_open s c = (case conns s c of None \<Rightarrow> False | Some k \<Rightarrow> cstate k = Opened)"

definition conn_send :: "nat \<Rightarrow> SyncCommand \<Rightarrow> app \<Rightarrow> app" where
  "conn_send c m s =
     s\<lparr>conns := (conns s)(c := map_option (\<lambda>k. k\<lparr>sent := sent k @ [m]\<rparr>) (conns s c))\<rparr>"

text \<open>What has been sent over a connection so far.\<close>

definition sent_on :: "app \<Rightarrow> nat \<Rightarrow> SyncCommand list" where
  "sent_on s c = (case conns s c of None \<Rightarrow> [] | Some k \<Rightarrow> sent k)"

definition conn_peer :: "app \<Rightarrow> nat \<Rightarrow> string" where
  "conn_peer s c = (case conns s c of None \<Rightarrow> [] | Some k \<Rightarrow> peer k)"

definition peer_call :: "string \<Rightarrow> app \<Rightarrow> app" where
  "peer_call p s = s\<lparr>calls := calls s @ [p]\<rparr>"

definition setTimeout_300 :: "app \<Rightarrow> app" where
  "setTimeout_300 s =
     s\<lparr>timers := timers s @ [Timeout (next_timer s) (now s + 300)],
       next_timer := Suc (next_timer s)\<rparr>"

definition setInterval_1000 :: "app \<Rightarrow> app" where
  "setInterval_1000 s =
     s\<lparr>timers := timers s @ [Interval (next_timer s) (now s + 1000)],
       next_timer := Suc (next_timer s)\<rparr>"

definition clearInterval :: "nat \<Rightarrow> app \<Rightarrow> app" where
  "clearInterval i s = s\<lparr>timers := filter (\<lambda>t. timer_id t \<noteq> i) (timers s)\<rparr>"

subsection \<open>The heartbeat scheduler\<close>

text \<open>
  \<^verbatim>\<open>if (heartbeatInterval.current)\<close> tests truthiness: \<^verbatim>\<open>null\<close> and the handle 0 are
  both false.
\<close>

definition startHeartbeat :: "app \<Rightarrow> app" where
  "startHeartbeat s =
     (let s1 = (case heartbeatInterval s of
                  None \<Rightarrow> s
                | Some i \<Rightarrow> if i \<noteq> 0 then clearInterval i s else s);
          s2 = setInterval_1000 s1
      in addLog Heartbeat_started (s2\<lparr>heartbeatInterval := Some (next_timer s1)\<rparr>))"

definition stopHeartbeat :: "app \<Rightarrow> app" where
  "stopHeartbeat s =
     (case heartbeatInterval s of
        None \<Rightarrow> s
      | Some i \<Rightarrow>
          if i \<noteq> 0
          then addLog Heartbeat_stopped ((clearInterval i s)\<lparr>heartbeatInterval := None\<rparr>)
          else s)"

text \<open>The callback of the interval.\<close>

definition heartbeat_tick :: "app \<Rightarrow> app" where
  "heartbeat_tick s =
     (case videoRef s of
        None \<Rightarrow> s
      | Some v \<Rightarrow>
          (case dataConnRef s of
             None \<Rightarrow> s
           | Some c \<Rightarrow>
               if conn_open s c
               then conn_send c \<lparr>ctype = HEARTBEAT, timestamp = currentTime v\<rparr> s
               else s))"

subsection \<open>Applying and sending commands\<close>

text \<open>The \<^verbatim>\<open>switch\<close> of the Host branch; \<open>None\<close> when the setter throws.\<close>

definition host_exec :: "raw_cmd \<Rightarrow> video \<Rightarrow> video option" where
  "host_exec cmd v =
     (if rtype cmd = TypeStr ''PLAY'' then Some (v\<lparr>paused := False\<rparr>)
      else if rtype cmd = TypeStr ''PAUSE'' then Some (v\<lparr>paused := True\<rparr>)
      else if rtype cmd = TypeStr ''SEEK'' then
        (if js_gt (Math_abs (js_sub (Num (currentTime v)) (to_number (rtimestamp cmd))))
              (Num (1 / 2))
         then set_currentTime (rtimestamp cmd) v
         else Some v)
      else Some v)"

text \<open>
  An exception leaves the handler at once: after a throwing setter the Host branch does
  not reach its \<^verbatim>\<open>setTimeout\<close>.
\<close>

definition handleSyncCommand :: "raw_cmd \<Rightarrow> app \<Rightarrow> app" where
  "handleSyncCommand cmd s =
     (case (if isHost s then videoRef s else remoteVideoRef s) of
        None \<Rightarrow> s
      | Some v \<Rightarrow>
          if isHost s then
            (if rtype cmd = TypeStr ''HEARTBEAT'' then s
             else
               (let s1 = addLog (Exec (rtype cmd)) (s\<lparr>isRemoteOp := True\<rparr>) in
                case host_exec cmd v of
                  None \<Rightarrow> s1\<lparr>uncaught := Suc (uncaught s1)\<rparr>
                | Some v' \<Rightarrow> setTimeout_300 (s1\<lparr>videoRef := Some v'\<rparr>)))
          else
            (if rtype cmd = TypeStr ''HEARTBEAT'' then
               (let drift = Math_abs (js_sub (Num (currentTime v)) (to_number (rtimestamp cmd)));
                    s1 = (if js_gt drift (Num (1 / 2)) then addLog (Drift drift) s else s)
                in if js_gt drift (Num 1) then
                     (let s2 = addLog (Syncing_drift drift) s1 in
                      case set_currentTime (rtimestamp cmd) v of
                        None \<Rightarrow> s2\<lparr>uncaught := Suc (uncaught s2)\<rparr>
                      | Some v' \<Rightarrow> s2\<lparr>remoteVideoRef := Some v'\<rparr>)
                   else s1)
             else s))"

definition sendCommand :: "cmd_type \<Rightarrow> real \<Rightarrow> app \<Rightarrow> app" where
  "sendCommand ty ts s =
     (if dataConnRef s \<noteq> None \<and> conn_open s (the (dataConnRef s)) \<and> \<not> isRemoteOp s
      then conn_send (the (dataConnRef s)) \<lparr>ctype = ty, timestamp = ts\<rparr> (addLog (Sending ty) s)
      else if dataConnRef s = None then addLog Send_Fail_No_Conn s
      else if \<not> conn_open s (the (dataConnRef s)) then addLog Send_Fail_Conn_Closed s
      else if isRemoteOp s then addLog Send_Skip_RemoteOp s
      else s)"

subsection \<open>The handlers that \<^verbatim>\<open>setupDataConnection\<close> registers\<close>

text \<open>
  The \<^verbatim>\<open>data\<close> handler: the cast checks nothing, so the only failure is the property read
  on \<^verbatim>\<open>null\<close>; everything else is logged (unless a heartbeat) and handed on.
\<close>

definition conn_on_data :: "wire_data \<Rightarrow> app \<Rightarrow> app" where
  "conn_on_data d s =
     (case d of
        DNull \<Rightarrow> s\<lparr>uncaught := Suc (uncaught s)\<rparr>
      | DObj cmd \<Rightarrow>
          handleSyncCommand cmd
            (if rtype cmd \<noteq> TypeStr ''HEARTBEAT'' then addLog (Received (rtype cmd)) s else s))"

definition setup_on_open :: "app \<Rightarrow> app" where
  "setup_on_open s =
     (let s1 = addLog DataConnection_Open s in if isHost s1 then startHeartbeat s1 else s1)"

definition conn_on_close :: "app \<Rightarrow> app" where
  "conn_on_close s = stopHeartbeat (addLog Connection_closed s)"

definition conn_on_error :: "app \<Rightarrow> app" where
  "conn_on_error s = stopHeartbeat (addLog DataConn_error s)"

subsection \<open>Connections and calls\<close>

text \<open>\<^verbatim>\<open>peer.on('connection')\<close>: the Host side of a new control channel.\<close>

definition peer_on_connection :: "string \<Rightarrow> app \<Rightarrow> app" where
  "peer_on_connection p s =
     s\<lparr>conns := (conns s)(next_conn s \<mapsto>
          \<lparr>peer = p, cstate = Connecting, inbound = True, handlers = True, sent = []\<rparr>),
       next_conn := Suc (next_conn s),
       dataConnRef := Some (next_conn s)\<rparr>"

text \<open>The second \<^verbatim>\<open>open\<close> handler of an inbound connection: call the client.\<close>

definition inbound_on_open :: "nat \<Rightarrow> capture \<Rightarrow> app \<Rightarrow> app" where
  "inbound_on_open c cap s =
     (case videoRef s of
        None \<Rightarrow> s
      | Some v \<Rightarrow>
          (case cap of
             CaptureThrows \<Rightarrow> addLog Error_capturing_stream s
           | Captured n \<Rightarrow> peer_call (conn_peer s c) (addLog Calling_client s)))"

definition connectToHost :: "app \<Rightarrow> app" where
  "connectToHost s =
     (if \<not> peerRef s \<or> remoteId s = [] then s
      else (addLog (Connecting_to (remoteId s)) s)
        \<lparr>conns := (conns s)(next_conn s \<mapsto>
           \<lparr>peer = remoteId s, cstate = Connecting, inbound = False, handlers = False,
            sent = []\<rparr>),
         next_conn := Suc (next_conn s)\<rparr>)"

text \<open>The \<^verbatim>\<open>open\<close> handler of \<^verbatim>\<open>connectToHost\<close>; it ends with \<^verbatim>\<open>setupDataConnection\<close>.\<close>

definition outbound_on_open :: "nat \<Rightarrow> app \<Rightarrow> app" where
  "outbound_on_open c s =
     (let s1 = addLog Connected_to_Host s in
      s1\<lparr>dataConnRef := Some c,
         conns := (conns s1)(c := map_option (\<lambda>k. k\<lparr>handlers := True\<rparr>) (conns s1 c))\<rparr>)"

text \<open>
  The connection opens: the library sets \<^verbatim>\<open>open\<close>, then the handlers run in the order of
  their registration.
\<close>

definition conn_opens :: "nat \<Rightarrow> capture \<Rightarrow> app \<Rightarrow> app" where
  "conn_opens c cap s =
     (case conns s c of
        None \<Rightarrow> s
      | Some k \<Rightarrow>
          if cstate k \<noteq> Connecting then s
          else
            (let s1 = s\<lparr>conns := (conns s)(c \<mapsto> k\<lparr>cstate := Opened\<rparr>)\<rparr>;
                 s2 = (if handlers k then setup_on_open s1 else s1)
             in if inbound k then inbound_on_open c cap s2 else outbound_on_open c s2))"

definition conn_receives :: "nat \<Rightarrow> wire_data \<Rightarrow> app \<Rightarrow> app" where
  "conn_receives c d s =
     (case conns s c of
        None \<Rightarrow> s
      | Some k \<Rightarrow> if handlers k \<and> cstate k = Opened then conn_on_data d s else s)"

definition conn_closes :: "nat \<Rightarrow> app \<Rightarrow> app" where
  "conn_closes c s =
     (case conns s c of
        None \<Rightarrow> s
      | Some k \<Rightarrow>
          if cstate k = Closed then s
          else
            (let s1 = s\<lparr>conns := (conns s)(c \<mapsto> k\<lparr>cstate := Closed\<rparr>)\<rparr>
             in if handlers k then conn_on_close s1 else s1))"

definition conn_errors :: "nat \<Rightarrow> app \<Rightarrow> app" where
  "conn_errors c s =
     (case conns s c of
        None \<Rightarrow> s
      | Some k \<Rightarrow> if handlers k then conn_on_error s else s)"

text \<open>Assigning a source runs the element's load algorithm.\<close>

definition load_media :: "video \<Rightarrow> video" where
  "load_media v = v\<lparr>currentTime := 0, paused := True, has_source := True\<rparr>"

text \<open>The \<^verbatim>\<open>stream\<close> handler of an answered call; \<open>ok\<close> says whether \<^verbatim>\<open>play()\<close> succeeds.\<close>

definition call_on_stream :: "bool \<Rightarrow> app \<Rightarrow> app" where
  "call_on_stream ok s =
     (let s1 = addLog Received_remote_stream s in
      case remoteVideoRef s1 of
        None \<Rightarrow> s1
      | Some v \<Rightarrow>
          if ok then s1\<lparr>remoteVideoRef := Some ((load_media v)\<lparr>paused := False\<rparr>)\<rparr>
          else addLog Autoplay_failed (s1\<lparr>remoteVideoRef := Some (load_media v)\<rparr>))"

subsection \<open>The Host's file input and repair button\<close>

record media_file =
  mime :: string
  fname :: string

definition to_lower :: "char \<Rightarrow> char" where
  "to_lower c =
     (if 65 \<le> (of_char c :: nat) \<and> (of_char c :: nat) \<le> 90
      then char_of ((of_char c :: nat) + 32) else c)"

definition ends_with :: "string \<Rightarrow> string \<Rightarrow> bool" where
  "ends_with suf str =
     (length suf \<le> length str \<and> drop (length str - length suf) str = suf)"

definition handleFileChange :: "media_file option \<Rightarrow> capture \<Rightarrow> app \<Rightarrow> app" where
  "handleFileChange fo cap s =
     (case fo of
        None \<Rightarrow> s
      | Some f \<Rightarrow>
          if mime f \<noteq> ''video/mp4'' \<and> \<not> ends_with ''.mp4'' (map to_lower (fname f))
          then addLog Error_Non_MP4 s
          else
            (case videoRef s of
               None \<Rightarrow> s
             | Some v \<Rightarrow>
                 (let s1 = s\<lparr>videoRef := Some (load_media v), isHost := True\<rparr> in
                  if dataConnRef s1 \<noteq> None \<and> conn_open s1 (the (dataConnRef s1)) \<and> peerRef s1
                  then
                    (let s2 = addLog Late_video_load s1 in
                     case cap of
                       CaptureThrows \<Rightarrow> addLog Error_capturing_stream s2
                     | Captured n \<Rightarrow>
                         startHeartbeat (peer_call (conn_peer s2 (the (dataConnRef s2))) s2))
                  else s1)))"

definition restartStream :: "capture \<Rightarrow> app \<Rightarrow> app" where
  "restartStream cap s =
     (if isHost s \<and> peerRef s \<and> dataConnRef s \<noteq> None \<and> videoRef s \<noteq> None
      then
        (let s1 = addLog Restarting_stream s in
         case cap of
           CaptureThrows \<Rightarrow> addLog Error_restarting s1
         | Captured n \<Rightarrow>
             (let s2 = addLog (Captured_stream n) s1;
                  s3 = (if 0 < n then addLog Track_0 s2 else s2)
              in peer_call (conn_peer s3 (the (dataConnRef s3))) s3))
      else s)"

subsection \<open>Time\<close>

text \<open>
  One millisecond passes: the timers that are due run in the order of their creation. A
  timeout is spent, an interval is due again 1000 ms later. Neither callback sets or
  clears a timer.
\<close>

fun fire_timer :: "timer \<Rightarrow> app \<Rightarrow> app" where
  "fire_timer (Timeout i d) s =
     (if d \<le> now s
      then s\<lparr>timers := filter (\<lambda>t. t \<noteq> Timeout i d) (timers s), isRemoteOp := False\<rparr>
      else s)"
| "fire_timer (Interval i d) s =
     (if d \<le> now s
      then heartbeat_tick
        (s\<lparr>timers := map (\<lambda>t. if t = Interval i d then Interval i (now s + 1000) else t)
             (timers s)\<rparr>)
      else s)"

definition elapse_ms :: "app \<Rightarrow> app" where
  "elapse_ms s = (let s1 = s\<lparr>now := Suc (now s)\<rparr> in fold fire_timer (timers s1) s1)"

fun elapse :: "nat \<Rightarrow> app \<Rightarrow> app" where
  "elapse 0 s = s"
| "elapse (Suc n) s = elapse n (elapse_ms s)"

subsection \<open>Events\<close>

text \<open>
  Everything that can happen to the component. A control that the current view does not
  render cannot be used, and React clears a ref when its element leaves the page.
  \<open>MediaState\<close> is the environment moving a video element (playback, the native
  controls); \<open>VideoPlay\<close>, \<open>VideoPause\<close> and \<open>VideoSeeked\<close> are the events of the Host's
  element.
\<close>

datatype event =
    PeerLoaded | PeerOpen | PeerError
  | PeerConnection string
  | ConnOpen nat capture | ConnData nat wire_data | ConnClose nat | ConnError nat
  | PeerCall | CallStream bool | CallClose | CallError
  | ClickHost | ClickClient | ClickExit
  | FileChange "media_file option" capture | LoadedMetadata nat nat | ClickRestart capture
  | VideoPlay | VideoPause | VideoSeeked
  | TypeRemoteId string | ClickConnect | ClickPlay | ClickPause
  | MediaState bool real bool
  | Millisecond

definition on_video_event :: "cmd_type \<Rightarrow> app \<Rightarrow> app" where
  "on_video_event ty s =
     (case videoRef s of None \<Rightarrow> s | Some v \<Rightarrow> sendCommand ty (currentTime v) s)"

definition media_state :: "bool \<Rightarrow> real \<Rightarrow> bool \<Rightarrow> app \<Rightarrow> app" where
  "media_state h r p s =
     (if r < 0 then s
      else if h then s\<lparr>videoRef := map_option (\<lambda>v. v\<lparr>currentTime := r, paused := p\<rparr>) (videoRef s)\<rparr>
      else s\<lparr>remoteVideoRef :=
               map_option (\<lambda>v. v\<lparr>currentTime := r, paused := p\<rparr>) (remoteVideoRef s)\<rparr>)"

fun step :: "event \<Rightarrow> app \<Rightarrow> app" where
  "step PeerLoaded s = s\<lparr>peerRef := True\<rparr>"
| "step PeerOpen s = (if peerRef s then addLog My_Peer_ID (addLog Ready s) else s)"
| "step PeerError s = (if peerRef s then addLog Peer_error s else s)"
| "step (PeerConnection p) s = (if peerRef s then peer_on_connection p s else s)"
| "step (ConnOpen c cap) s = conn_opens c cap s"
| "step (ConnData c d) s = conn_receives c d s"
| "step (ConnClose c) s = conn_closes c s"
| "step (ConnError c) s = conn_errors c s"
| "step PeerCall s = (if peerRef s then addLog Receiving_call s else s)"
| "step (CallStream ok) s = (if peerRef s then call_on_stream ok s else s)"
| "step CallClose s = (if peerRef s then addLog Call_closed s else s)"
| "step CallError s = (if peerRef s then addLog Call_error s else s)"
| "step ClickHost s =
     (if view s = LANDING
      then s\<lparr>view := HOST, isHost := True, videoRef := Some new_video\<rparr> else s)"
| "step ClickClient s =
     (if view s = LANDING
      then s\<lparr>view := CLIENT, isHost := False, remoteVideoRef := Some new_video\<rparr> else s)"
| "step ClickExit s =
     (if view s = LANDING then s
      else s\<lparr>view := LANDING, videoRef := None, remoteVideoRef := None\<rparr>)"
| "step (FileChange fo cap) s = (if view s = HOST then handleFileChange fo cap s else s)"
| "step (LoadedMetadata w h) s = (if view s = HOST then addLog (Video_loaded w h) s else s)"
| "step (ClickRestart cap) s = (if view s = HOST then restartStream cap s else s)"
| "step VideoPlay s = (if view s = HOST then on_video_event PLAY s else s)"
| "step VideoPause s = (if view s = HOST then on_video_event PAUSE s else s)"
| "step VideoSeeked s = (if view s = HOST then on_video_event SEEK s else s)"
| "step (TypeRemoteId r) s = (if view s = CLIENT then s\<lparr>remoteId := r\<rparr> else s)"
| "step ClickConnect s = (if view s = CLIENT then connectToHost s else s)"
| "step ClickPlay s = (if view s = CLIENT then sendCommand PLAY 0 s else s)"
| "step ClickPause s = (if view s = CLIENT then sendCommand PAUSE 0 s else s)"
| "step (MediaState h r p) s = media_state h r p s"
| "step Millisecond s = elapse_ms s"

text \<open>The states the component can reach are \<open>run evs init\<close>.\<close>

definition run :: "event list \<Rightarrow> app \<Rightarrow> app" where
  "run evs s = fold step evs s"

subsection \<open>Invariants of the reachable states\<close>

text \<open>
  The only interval timer alive is the one whose handle \<^verbatim>\<open>heartbeatInterval\<close> holds, and
  that handle is never 0.
\<close>

definition heartbeat_wf :: "app \<Rightarrow> bool" where
  "heartbeat_wf s =
     (map timer_id (filter is_interval (timers s)) =
        (case heartbeatInterval s of None \<Rightarrow> [] | Some i \<Rightarrow> [i]) \<and>
      0 < next_timer s \<and> heartbeatInterval s \<noteq> Some 0)"

text \<open>
  Each video ref is set exactly while its view is shown, and the role flag agrees with
  the view.
\<close>

definition view_wf :: "app \<Rightarrow> bool" where
  "view_wf s =
     ((videoRef s \<noteq> None) = (view s = HOST) \<and>
      (remoteVideoRef s \<noteq> None) = (view s = CLIENT) \<and>
      (if view s = HOST then isHost s else True) \<and>
      (if view s = CLIENT then \<not> isHost s else True))"

text \<open>
  The connection that \<^verbatim>\<open>dataConnRef\<close> holds exists and has the handlers of
  \<^verbatim>\<open>setupDataConnection\<close>; connection handles not yet given out are unused.
\<close>

definition conn_wf :: "app \<Rightarrow> bool" where
  "conn_wf s =
     ((case dataConnRef s of
         None \<Rightarrow> True
       | Some c \<Rightarrow> (case conns s c of None \<Rightarrow> False | Some k \<Rightarrow> handlers k)) \<and>
      (\<forall>c. next_conn s \<le> c \<longrightarrow> conns s c = None))"

subsection \<open>Example states\<close>


definition client_at :: "real \<Rightarrow> app" where
  "client_at t = run [PeerLoaded, ClickClient, MediaState False t False] init"

text \<open>
  A Host at position \<open>t\<close> whose control channel to the peer \<^verbatim>\<open>client\<close> is open: the
  connection has the handle 0 and the heartbeat timer the handle 1.
\<close>

definition host_connected :: "real \<Rightarrow> app" where
  "host_connected t =
     run [PeerLoaded, ClickHost, MediaState True t False, PeerConnection ''client'',
          ConnOpen 0 (Captured 1)] init"

text \<open>The connected Host leaves its view and joins as a Client.\<close>

definition role_switched :: app where
  "role_switched = run [ClickExit, ClickClient] (host_connected 0)"

section \<open>Properties\<close>

subsection \<open>The example states\<close>

lemma init_no_conn: "dataConnRef init = None"
  by (simp add: init_def)


lemma client_at_simps:
  "isHost (client_at t) = False"
  "view (client_at t) = CLIENT"
  "logs (client_at t) = []"
  "0 \<le> t \<Longrightarrow>
     remoteVideoRef (client_at t) = Some (new_video\<lparr>currentTime := t, paused := False\<rparr>)"
  by (simp_all add: client_at_def run_def media_state_def init_def)

lemma host_connected_simps:
  "isHost (host_connected t) = True"
  "view (host_connected t) = HOST"
  "0 \<le> t \<Longrightarrow> videoRef (host_connected t) = Some (new_video\<lparr>currentTime := t, paused := False\<rparr>)"
  "dataConnRef (host_connected t) = Some 0"
  "conn_open (host_connected t) 0 = True"
  "sent_on (host_connected t) 0 = []"
  "isRemoteOp (host_connected t) = False"
  "heartbeatInterval (host_connected t) = Some 1"
  "timers (host_connected t) = [Interval 1 1000]"
  "now (host_connected t) = 0"
  "peerRef (host_connected t) = True"
  by (simp_all add: host_connected_def run_def media_state_def init_def peer_on_connection_def
      conn_opens_def setup_on_open_def inbound_on_open_def startHeartbeat_def setInterval_1000_def
      addLog_def peer_call_def conn_peer_def conn_open_def sent_on_def Let_def)

lemma role_switched_simps:
  "isHost role_switched = False"
  "view role_switched = CLIENT"
  "heartbeatInterval role_switched = Some 1"
  "timers role_switched = [Interval 1 1000]"
  "dataConnRef role_switched = Some 0"
  "conn_open role_switched 0 = True"
  by (simp_all add: role_switched_def run_def host_connected_simps conn_open_def
      host_connected_def media_state_def init_def peer_on_connection_def
      conn_opens_def setup_on_open_def inbound_on_open_def startHeartbeat_def setInterval_1000_def
      addLog_def peer_call_def conn_peer_def Let_def)

lemma host_connected_more:
  "next_timer (host_connected t) = 2"
  "next_conn (host_connected t) = 1"
  "calls (host_connected t) = [''client'']"
  "logs (host_connected t) = [DataConnection_Open, Heartbeat_started, Calling_client]"
  by (simp_all add: host_connected_def run_def media_state_def init_def peer_on_connection_def
      conn_opens_def setup_on_open_def inbound_on_open_def startHeartbeat_def setInterval_1000_def
      addLog_def peer_call_def conn_peer_def Let_def)

lemma host_connected_peer:
  "conns (host_connected t) 0 =
     Some \<lparr>peer = ''client'', cstate = Opened, inbound = True, handlers = True, sent = []\<rparr>"
  by (simp add: host_connected_def run_def media_state_def init_def peer_on_connection_def
      conn_opens_def setup_on_open_def inbound_on_open_def startHeartbeat_def setInterval_1000_def
      addLog_def peer_call_def conn_peer_def Let_def)


lemma client_at_more:
  "heartbeatInterval (client_at t) = None"
  "dataConnRef (client_at t) = None"
  by (simp_all add: client_at_def run_def media_state_def init_def)

subsection \<open>Timers\<close>

lemma heartbeat_tick_frame:
  "isRemoteOp (heartbeat_tick s) = isRemoteOp s"
  "now (heartbeat_tick s) = now s"
  "timers (heartbeat_tick s) = timers s"
  "dataConnRef (heartbeat_tick s) = dataConnRef s"
  "videoRef (heartbeat_tick s) = videoRef s"
  "remoteVideoRef (heartbeat_tick s) = remoteVideoRef s"
  "heartbeatInterval (heartbeat_tick s) = heartbeatInterval s"
  "isHost (heartbeat_tick s) = isHost s"
  "view (heartbeat_tick s) = view s"
  "logs (heartbeat_tick s) = logs s"
  "calls (heartbeat_tick s) = calls s"
  "next_timer (heartbeat_tick s) = next_timer s"
  by (simp_all add: heartbeat_tick_def conn_send_def split: option.splits)

lemma conn_open_conn_send [simp]: "conn_open (conn_send c m s) c' = conn_open s c'"
  by (simp add: conn_open_def conn_send_def split: option.splits)

lemma conn_open_heartbeat_tick [simp]: "conn_open (heartbeat_tick s) c = conn_open s c"
  by (simp add: heartbeat_tick_def split: option.splits)

lemma fire_timer_frame:
  "now (fire_timer t s) = now s"
  "dataConnRef (fire_timer t s) = dataConnRef s"
  "videoRef (fire_timer t s) = videoRef s"
  "remoteVideoRef (fire_timer t s) = remoteVideoRef s"
  "heartbeatInterval (fire_timer t s) = heartbeatInterval s"
  "isHost (fire_timer t s) = isHost s"
  "view (fire_timer t s) = view s"
  "logs (fire_timer t s) = logs s"
  "calls (fire_timer t s) = calls s"
  "next_timer (fire_timer t s) = next_timer s"
  "conn_open (fire_timer t s) c = conn_open s c"
  by (cases t; simp add: heartbeat_tick_frame; simp add: conn_open_def)+



lemma fold_fire_now [simp]: "now (fold fire_timer ts s) = now s"
  by (induction ts arbitrary: s) (simp_all add: fire_timer_frame)




lemma now_elapse_ms [simp]: "now (elapse_ms s) = Suc (now s)"
  by (simp add: elapse_ms_def Let_def)

lemma now_elapse [simp]: "now (elapse k s) = now s + k"
  by (induction k arbitrary: s) simp_all









lemma elapse_ms_frame:
  "dataConnRef (elapse_ms s) = dataConnRef s"
  "conn_open (elapse_ms s) c = conn_open s c"
proof -
  have a: "dataConnRef (fold fire_timer ts s') = dataConnRef s'" for ts s'
    by (induction ts arbitrary: s') (simp_all add: fire_timer_frame)
  have b: "conn_open (fold fire_timer ts s') c = conn_open s' c" for ts s'
    by (induction ts arbitrary: s') (simp_all add: fire_timer_frame)
  show "dataConnRef (elapse_ms s) = dataConnRef s" "conn_open (elapse_ms s) c = conn_open s c"
  proof -
    have c: "conn_open (s\<lparr>now := n\<rparr>) c = conn_open s c" for n
      by (simp add: conn_open_def)
    show "dataConnRef (elapse_ms s) = dataConnRef s"
      by (simp add: elapse_ms_def Let_def a)
    show "conn_open (elapse_ms s) c = conn_open s c"
      by (simp add: elapse_ms_def Let_def b c)
  qed
qed






subsection \<open>The invariants hold in every reachable state\<close>

lemma heartbeat_wf_init: "heartbeat_wf init"
  by (simp add: heartbeat_wf_def init_def)

lemma view_wf_init: "view_wf init"
  by (simp add: view_wf_def init_def)

lemma conn_wf_init: "conn_wf init"
  by (simp add: conn_wf_def init_def)

lemma clear_only_interval:
  assumes "map timer_id (filter is_interval ts) = [i]"
  shows "filter is_interval (filter (\<lambda>t. timer_id t \<noteq> i) ts) = []"
proof -
  from assms obtain z where z: "filter is_interval ts = [z]" "timer_id z = i" by auto
  have "filter is_interval (filter (\<lambda>t. timer_id t \<noteq> i) ts) =
        filter (\<lambda>t. timer_id t \<noteq> i) (filter is_interval ts)"
    by (simp add: conj_commute)
  with z show ?thesis by simp
qed

lemma intervals_clearInterval:
  "map timer_id (filter is_interval (timers s)) = [i] \<Longrightarrow>
   filter is_interval (timers (clearInterval i s)) = []"
  using clear_only_interval [of "timers s" i] by (simp add: clearInterval_def)

lemma clearInterval_frame:
  "heartbeatInterval (clearInterval i s) = heartbeatInterval s"
  "next_timer (clearInterval i s) = next_timer s"
  "now (clearInterval i s) = now s"
  by (simp_all add: clearInterval_def)

lemma startHeartbeat_intervals:
  assumes "heartbeat_wf s"
  shows "filter is_interval (timers (startHeartbeat s)) = [Interval (next_timer s) (now s + 1000)]"
    and "heartbeatInterval (startHeartbeat s) = Some (next_timer s)"
    and "next_timer (startHeartbeat s) = Suc (next_timer s)"
proof -
  let ?s1 = "case heartbeatInterval s of None \<Rightarrow> s
             | Some i \<Rightarrow> if i \<noteq> 0 then clearInterval i s else s"
  have s1: "filter is_interval (timers ?s1) = [] \<and> next_timer ?s1 = next_timer s \<and>
            now ?s1 = now s"
  proof (cases "heartbeatInterval s")
    case None
    with assms show ?thesis by (simp add: heartbeat_wf_def)
  next
    case (Some i)
    with assms have "i \<noteq> 0" "map timer_id (filter is_interval (timers s)) = [i]"
      by (simp_all add: heartbeat_wf_def)
    with Some show ?thesis by (simp add: intervals_clearInterval clearInterval_frame)
  qed
  have eq: "startHeartbeat s =
      addLog Heartbeat_started ((setInterval_1000 ?s1)\<lparr>heartbeatInterval := Some (next_timer ?s1)\<rparr>)"
    by (simp add: startHeartbeat_def Let_def)
  from s1 show "filter is_interval (timers (startHeartbeat s)) =
      [Interval (next_timer s) (now s + 1000)]"
    unfolding eq by (simp add: addLog_def setInterval_1000_def)
  from s1 show "heartbeatInterval (startHeartbeat s) = Some (next_timer s)"
    unfolding eq by (simp add: addLog_def setInterval_1000_def)
  from s1 show "next_timer (startHeartbeat s) = Suc (next_timer s)"
    unfolding eq by (simp add: addLog_def setInterval_1000_def)
qed

lemma startHeartbeat_wf: "heartbeat_wf s \<Longrightarrow> heartbeat_wf (startHeartbeat s)"
  using startHeartbeat_intervals [of s] by (simp add: heartbeat_wf_def)

lemma stopHeartbeat_intervals:
  assumes "heartbeat_wf s"
  shows "filter is_interval (timers (stopHeartbeat s)) = []"
    and "heartbeatInterval (stopHeartbeat s) = None"
    and "next_timer (stopHeartbeat s) = next_timer s"
proof -
  show "filter is_interval (timers (stopHeartbeat s)) = []"
  proof (cases "heartbeatInterval s")
    case None
    with assms show ?thesis by (simp add: heartbeat_wf_def stopHeartbeat_def)
  next
    case (Some i)
    with assms have "i \<noteq> 0" "map timer_id (filter is_interval (timers s)) = [i]"
      by (simp_all add: heartbeat_wf_def)
    with Some show ?thesis
      by (simp add: stopHeartbeat_def addLog_def intervals_clearInterval)
  qed
  from assms show "heartbeatInterval (stopHeartbeat s) = None"
    by (cases "heartbeatInterval s")
      (simp_all add: stopHeartbeat_def addLog_def heartbeat_wf_def)
  show "next_timer (stopHeartbeat s) = next_timer s"
    by (cases "heartbeatInterval s")
      (simp_all add: stopHeartbeat_def addLog_def clearInterval_frame)
qed

lemma stopHeartbeat_wf: "heartbeat_wf s \<Longrightarrow> heartbeat_wf (stopHeartbeat s)"
  using stopHeartbeat_intervals [of s] by (simp add: heartbeat_wf_def)


lemmas handler_defs =
  addLog_def conn_send_def peer_call_def setTimeout_300_def setInterval_1000_def
  clearInterval_def startHeartbeat_def stopHeartbeat_def heartbeat_tick_def
  handleSyncCommand_def sendCommand_def conn_on_data_def setup_on_open_def
  conn_on_close_def conn_on_error_def peer_on_connection_def inbound_on_open_def
  connectToHost_def outbound_on_open_def conn_opens_def conn_receives_def conn_closes_def
  conn_errors_def call_on_stream_def handleFileChange_def restartStream_def
  on_video_event_def media_state_def Let_def

lemma fire_timer_view:
  "view (fire_timer t s) = view s" "isHost (fire_timer t s) = isHost s"
  "videoRef (fire_timer t s) = videoRef s" "remoteVideoRef (fire_timer t s) = remoteVideoRef s"
  by (cases t; simp add: heartbeat_tick_def conn_send_def split: option.splits)+

lemma fold_fire_view:
  "view (fold fire_timer ts s) = view s" "isHost (fold fire_timer ts s) = isHost s"
  "videoRef (fold fire_timer ts s) = videoRef s"
  "remoteVideoRef (fold fire_timer ts s) = remoteVideoRef s"
  by (induction ts arbitrary: s) (simp_all add: fire_timer_view)

lemma elapse_ms_view:
  "view (elapse_ms s) = view s" "isHost (elapse_ms s) = isHost s"
  "videoRef (elapse_ms s) = videoRef s" "remoteVideoRef (elapse_ms s) = remoteVideoRef s"
  by (simp_all add: elapse_ms_def Let_def fold_fire_view)

lemma view_wf_step: "view_wf s \<Longrightarrow> view_wf (step e s)"
  by (cases e)
    (auto simp add: view_wf_def handler_defs elapse_ms_view host_exec_def set_currentTime_def
      split: option.splits if_splits capture.splits wire_data.splits jsnum.splits)

lemma conn_wf_iff:
  "conn_wf s =
     ((\<forall>c. dataConnRef s = Some c \<longrightarrow> (\<exists>k. conns s c = Some k \<and> handlers k)) \<and>
      (\<forall>c. next_conn s \<le> c \<longrightarrow> conns s c = None))"
  by (auto simp add: conn_wf_def split: option.splits)

lemma conn_wf_conn_send: "conn_wf s \<Longrightarrow> conn_wf (conn_send c m s)"
  by (auto simp add: conn_wf_iff conn_send_def)

lemma conn_wf_heartbeat_tick: "conn_wf s \<Longrightarrow> conn_wf (heartbeat_tick s)"
  by (simp add: heartbeat_tick_def conn_wf_conn_send split: option.splits)

lemma conn_wf_fire_timer: "conn_wf s \<Longrightarrow> conn_wf (fire_timer t s)"
proof (cases t)
  case (Timeout i d)
  assume "conn_wf s"
  then show ?thesis by (simp add: Timeout conn_wf_iff)
next
  case (Interval i d)
  assume a: "conn_wf s"
  have "conn_wf (s\<lparr>timers := ts\<rparr>)" for ts using a by (simp add: conn_wf_iff)
  then show ?thesis by (simp add: Interval conn_wf_heartbeat_tick a)
qed

lemma conn_wf_fold_fire: "conn_wf s \<Longrightarrow> conn_wf (fold fire_timer ts s)"
  by (induction ts arbitrary: s) (simp_all add: conn_wf_fire_timer)

lemma conn_wf_elapse_ms: "conn_wf s \<Longrightarrow> conn_wf (elapse_ms s)"
proof -
  assume a: "conn_wf s"
  have "conn_wf (s\<lparr>now := n\<rparr>)" for n using a by (simp add: conn_wf_iff)
  then show ?thesis by (simp add: elapse_ms_def Let_def conn_wf_fold_fire)
qed

lemma conn_wf_step:
  assumes "conn_wf s"
  shows "conn_wf (step e s)"
proof (cases "e = Millisecond")
  case True
  with assms show ?thesis by (simp add: conn_wf_elapse_ms)
next
  case False
  with assms show ?thesis
    by (cases e)
      (auto simp add: conn_wf_iff handler_defs conn_open_def
        split: option.splits if_splits capture.splits wire_data.splits)
qed

lemma heartbeat_wf_update [simp]:
  "heartbeat_wf (s\<lparr>view := a1\<rparr>) = heartbeat_wf s"
  "heartbeat_wf (s\<lparr>isHost := a2\<rparr>) = heartbeat_wf s"
  "heartbeat_wf (s\<lparr>videoRef := a3\<rparr>) = heartbeat_wf s"
  "heartbeat_wf (s\<lparr>remoteVideoRef := a4\<rparr>) = heartbeat_wf s"
  "heartbeat_wf (s\<lparr>peerRef := a5\<rparr>) = heartbeat_wf s"
  "heartbeat_wf (s\<lparr>remoteId := a6\<rparr>) = heartbeat_wf s"
  "heartbeat_wf (s\<lparr>conns := a7\<rparr>) = heartbeat_wf s"
  "heartbeat_wf (s\<lparr>next_conn := a8\<rparr>) = heartbeat_wf s"
  "heartbeat_wf (s\<lparr>dataConnRef := a9\<rparr>) = heartbeat_wf s"
  "heartbeat_wf (s\<lparr>isRemoteOp := b1\<rparr>) = heartbeat_wf s"
  "heartbeat_wf (s\<lparr>now := b2\<rparr>) = heartbeat_wf s"
  "heartbeat_wf (s\<lparr>calls := b3\<rparr>) = heartbeat_wf s"
  "heartbeat_wf (s\<lparr>logs := b4\<rparr>) = heartbeat_wf s"
  "heartbeat_wf (s\<lparr>uncaught := b5\<rparr>) = heartbeat_wf s"
  by (simp_all add: heartbeat_wf_def)

lemma heartbeat_wf_basic [simp]:
  "heartbeat_wf (addLog m s) = heartbeat_wf s"
  "heartbeat_wf (peer_call p s) = heartbeat_wf s"
  "heartbeat_wf (conn_send c cm s) = heartbeat_wf s"
  by (simp_all add: addLog_def peer_call_def conn_send_def)

lemma heartbeat_wf_setTimeout: "heartbeat_wf s \<Longrightarrow> heartbeat_wf (setTimeout_300 s)"
  by (simp add: heartbeat_wf_def setTimeout_300_def)

lemma heartbeat_wf_handleSyncCommand: "heartbeat_wf s \<Longrightarrow> heartbeat_wf (handleSyncCommand cmd s)"
  by (simp add: handleSyncCommand_def Let_def heartbeat_wf_setTimeout split: option.splits)

lemma heartbeat_wf_sendCommand: "heartbeat_wf (sendCommand ty ts s) = heartbeat_wf s"
  by (simp add: sendCommand_def)

lemma heartbeat_wf_heartbeat_tick: "heartbeat_wf (heartbeat_tick s) = heartbeat_wf s"
  by (simp add: heartbeat_tick_def split: option.splits)

lemma intervals_drop_timeout:
  "filter (\<lambda>t. t \<noteq> Timeout i d \<and> is_interval t) ts = filter is_interval ts"
  by (induction ts) auto

lemma interval_ids_reschedule:
  "map timer_id (filter is_interval (map (\<lambda>t. if t = Interval i d then Interval i e else t) ts)) =
   map timer_id (filter is_interval ts)"
  by (induction ts) auto

lemma heartbeat_wf_fire_timer: "heartbeat_wf s \<Longrightarrow> heartbeat_wf (fire_timer t s)"
proof (cases t)
  case (Timeout i d)
  assume "heartbeat_wf s"
  then show ?thesis
    by (simp add: Timeout) (simp add: heartbeat_wf_def intervals_drop_timeout)
next
  case (Interval i d)
  assume "heartbeat_wf s"
  then show ?thesis
    by (simp add: Interval heartbeat_wf_heartbeat_tick)
      (simp add: heartbeat_wf_def interval_ids_reschedule)
qed

lemma heartbeat_wf_fold_fire: "heartbeat_wf s \<Longrightarrow> heartbeat_wf (fold fire_timer ts s)"
  by (induction ts arbitrary: s) (simp_all add: heartbeat_wf_fire_timer)

lemma heartbeat_wf_elapse_ms: "heartbeat_wf s \<Longrightarrow> heartbeat_wf (elapse_ms s)"
  by (simp add: elapse_ms_def Let_def heartbeat_wf_fold_fire)

lemma heartbeat_wf_step:
  assumes "heartbeat_wf s"
  shows "heartbeat_wf (step e s)"
  using assms
  by (cases e)
    (simp_all add: startHeartbeat_wf stopHeartbeat_wf heartbeat_wf_handleSyncCommand
      heartbeat_wf_sendCommand heartbeat_wf_elapse_ms
      conn_on_data_def setup_on_open_def conn_on_close_def conn_on_error_def
      peer_on_connection_def inbound_on_open_def connectToHost_def outbound_on_open_def
      conn_opens_def conn_receives_def conn_closes_def conn_errors_def call_on_stream_def
      handleFileChange_def restartStream_def on_video_event_def media_state_def Let_def
      split: option.splits capture.splits wire_data.splits)

lemma run_append: "run (evs @ [e]) s = step e (run evs s)"
  by (simp add: run_def)

lemma reachable_wf: "heartbeat_wf (run evs init) \<and> view_wf (run evs init) \<and> conn_wf (run evs init)"
proof (induction evs rule: rev_induct)
  case Nil
  show ?case by (simp add: run_def heartbeat_wf_init view_wf_init conn_wf_init)
next
  case (snoc e evs)
  then show ?case by (simp add: run_append heartbeat_wf_step view_wf_step conn_wf_step)
qed

subsection \<open>The heartbeat timer over time\<close>

lemma tick_conns_cong:
  "videoRef s' = videoRef s \<Longrightarrow> dataConnRef s' = dataConnRef s \<Longrightarrow> conns s' = conns s \<Longrightarrow>
   conns (heartbeat_tick s') = conns (heartbeat_tick s)"
  by (simp add: heartbeat_tick_def conn_send_def conn_open_def split: option.splits)

lemma fold_fire_no_interval:
  "filter is_interval ts = [] \<Longrightarrow>
   conns (fold fire_timer ts s) = conns s \<and>
   filter is_interval (timers (fold fire_timer ts s)) = filter is_interval (timers s)"
proof (induction ts arbitrary: s)
  case Nil
  then show ?case by simp
next
  case (Cons t ts)
  then obtain i d where t: "t = Timeout i d" by (cases t) (simp_all split: if_splits)
  from Cons.prems t have "filter is_interval ts = []" by simp
  from Cons.IH [OF this, of "fire_timer t s"] show ?case
    by (simp add: t intervals_drop_timeout)
qed

lemma reschedule_single:
  "filter is_interval ts = [Interval i d] \<Longrightarrow>
   filter is_interval (map (\<lambda>t. if t = Interval i d then Interval i e else t) ts) = [Interval i e]"
proof (induction ts)
  case Nil
  then show ?case by simp
next
  case (Cons t ts)
  show ?case
  proof (cases "is_interval t")
    case True
    with Cons.prems have t: "t = Interval i d" and r: "filter is_interval ts = []" by simp_all
    have "filter is_interval (map (\<lambda>t. if t = Interval i d then Interval i e else t) ts) = []"
      using r by (induction ts) (auto split: if_splits)
    with t show ?thesis by simp
  next
    case False
    with Cons show ?thesis by (cases t) simp_all
  qed
qed

lemma fold_fire_single_interval:
  "filter is_interval ts = [Interval i d] \<Longrightarrow> filter is_interval (timers s) = [Interval i d] \<Longrightarrow>
   conns (fold fire_timer ts s) = (if d \<le> now s then conns (heartbeat_tick s) else conns s) \<and>
   filter is_interval (timers (fold fire_timer ts s)) =
     [Interval i (if d \<le> now s then now s + 1000 else d)]"
proof (induction ts arbitrary: s)
  case Nil
  then show ?case by simp
next
  case (Cons t ts)
  show ?case
  proof (cases t)
    case (Timeout j e)
    with Cons.prems have r: "filter is_interval ts = [Interval i d]" by simp
    have s1: "filter is_interval (timers (fire_timer t s)) = [Interval i d]"
      using Cons.prems(2) by (simp add: Timeout intervals_drop_timeout)
    have c: "conns (heartbeat_tick (fire_timer t s)) = conns (heartbeat_tick s)"
      by (rule tick_conns_cong) (simp_all add: Timeout)
    from Cons.IH [OF r s1] c show ?thesis
      by (simp add: Timeout)
  next
    case (Interval j e)
    with Cons.prems have t: "t = Interval i d" and r: "filter is_interval ts = []" by simp_all
    let ?s1 = "fire_timer t s"
    from fold_fire_no_interval [OF r, of ?s1]
    have f: "conns (fold fire_timer ts ?s1) = conns ?s1"
      "filter is_interval (timers (fold fire_timer ts ?s1)) = filter is_interval (timers ?s1)"
      by simp_all
    have c: "conns (heartbeat_tick (s\<lparr>timers := x\<rparr>)) = conns (heartbeat_tick s)" for x
      by (rule tick_conns_cong) simp_all
    show ?thesis
      using f Cons.prems(2)
      by (simp add: t c heartbeat_tick_frame reschedule_single)
  qed
qed

lemma elapse_ms_single_interval:
  assumes "filter is_interval (timers s) = [Interval i d]"
  shows "conns (elapse_ms s) = (if d \<le> Suc (now s) then conns (heartbeat_tick s) else conns s)"
    and "filter is_interval (timers (elapse_ms s)) =
           [Interval i (if d \<le> Suc (now s) then Suc (now s) + 1000 else d)]"
proof -
  let ?s1 = "s\<lparr>now := Suc (now s)\<rparr>"
  have c: "conns (heartbeat_tick ?s1) = conns (heartbeat_tick s)"
    by (rule tick_conns_cong) simp_all
  from assms have "filter is_interval (timers ?s1) = [Interval i d]" by simp
  from fold_fire_single_interval [OF assms this] c
  show "conns (elapse_ms s) = (if d \<le> Suc (now s) then conns (heartbeat_tick s) else conns s)"
    and "filter is_interval (timers (elapse_ms s)) =
           [Interval i (if d \<le> Suc (now s) then Suc (now s) + 1000 else d)]"
    by (simp_all add: elapse_ms_def Let_def)
qed

lemma elapse_no_interval:
  "filter is_interval (timers s) = [] \<Longrightarrow>
   conns (elapse n s) = conns s \<and> filter is_interval (timers (elapse n s)) = []"
proof (induction n arbitrary: s)
  case 0
  then show ?case by simp
next
  case (Suc n)
  from fold_fire_no_interval [OF Suc.prems, of "s\<lparr>now := Suc (now s)\<rparr>"] Suc.prems
  have "conns (elapse_ms s) = conns s" "filter is_interval (timers (elapse_ms s)) = []"
    by (simp_all add: elapse_ms_def Let_def)
  with Suc.IH [of "elapse_ms s"] show ?case by simp
qed

lemma sent_on_cong: "conns a = conns b \<Longrightarrow> sent_on a c = sent_on b c"
  by (simp add: sent_on_def)

lemma sent_on_heartbeat_tick:
  "videoRef s = Some v \<Longrightarrow> dataConnRef s = Some c \<Longrightarrow>
   sent_on (heartbeat_tick s) c =
     sent_on s c @ (if conn_open s c then [\<lparr>ctype = HEARTBEAT, timestamp = currentTime v\<rparr>] else [])"
  by (auto simp add: heartbeat_tick_def sent_on_def conn_send_def conn_open_def
      split: option.splits)

lemma div_1000_step:
  "(1000 * Suc (k div 1000) \<le> Suc k) = (Suc k div 1000 = Suc (k div 1000))"
  "\<not> 1000 * Suc (k div 1000) \<le> Suc k \<Longrightarrow> Suc k div 1000 = k div 1000"
  "1000 * Suc (k div 1000) \<le> Suc k \<Longrightarrow> Suc k = 1000 * Suc (k div 1000)"
proof -
  define q r where "q = k div 1000" and "r = k mod 1000"
  have k: "k = 1000 * q + r" and r: "r < 1000"
    by (simp_all add: q_def r_def)
  have d: "Suc k div 1000 = (if Suc r = 1000 then Suc q else q)"
    by (simp add: div_Suc mod_Suc q_def r_def)
  have le: "(1000 * Suc q \<le> Suc k) = (Suc r = 1000)"
    using r unfolding k by auto
  show "(1000 * Suc (k div 1000) \<le> Suc k) = (Suc k div 1000 = Suc (k div 1000))"
    unfolding d q_def [symmetric] le by simp
  show "\<not> 1000 * Suc (k div 1000) \<le> Suc k \<Longrightarrow> Suc k div 1000 = k div 1000"
    unfolding d q_def [symmetric] le by simp
  show "1000 * Suc (k div 1000) \<le> Suc k \<Longrightarrow> Suc k = 1000 * Suc (k div 1000)"
    unfolding q_def [symmetric] le unfolding k by simp
qed

text \<open>The next due time and the number of ticks, after one more millisecond.\<close>

lemma next_due:
  "(if t0 + 1000 * Suc (k div 1000) \<le> Suc (t0 + k) then Suc (t0 + k) + 1000
    else t0 + 1000 * Suc (k div 1000)) = t0 + 1000 * Suc (Suc k div 1000)"
proof (cases "1000 * Suc (k div 1000) \<le> Suc k")
  case True
  note a = div_1000_step(3) [OF True]
  from True have b: "Suc k div 1000 = Suc (k div 1000)" by (simp only: div_1000_step(1))
  have "Suc (t0 + k) + 1000 = t0 + (Suc k + 1000)" by simp
  also have "\<dots> = t0 + (1000 * Suc (k div 1000) + 1000)" by (simp only: a [symmetric])
  also have "\<dots> = t0 + 1000 * Suc (Suc k div 1000)" by (simp only: b mult_Suc_right add.commute)
  finally show ?thesis using True by simp
next
  case False
  from div_1000_step(2) [OF False] False show ?thesis by simp
qed

lemma ticks_now:
  "Suc k div 1000 - k div 1000 = (if 1000 * Suc (k div 1000) \<le> Suc k then 1 else 0)"
proof (cases "1000 * Suc (k div 1000) \<le> Suc k")
  case True
  then have "Suc k div 1000 = Suc (k div 1000)" by (simp only: div_1000_step(1))
  with True show ?thesis by simp
next
  case False
  from div_1000_step(2) [OF False] False show ?thesis by simp
qed

lemma ticks_sum:
  "(Suc k div 1000 - k div 1000) + ((Suc k + n) div 1000 - Suc k div 1000) =
   (k + Suc n) div 1000 - k div 1000"
proof -
  have gen: "a \<le> b \<Longrightarrow> b \<le> c \<Longrightarrow> (b - a) + (c - b) = c - a" for a b c :: nat
    by simp
  have 1: "k div 1000 \<le> Suc k div 1000" by (rule div_le_mono) simp
  have 2: "Suc k div 1000 \<le> (Suc k + n) div 1000" by (rule div_le_mono) simp
  have 3: "Suc k + n = k + Suc n" by simp
  from gen [OF 1 2] show ?thesis by (simp only: 3)
qed

lemma due_now: "(t0 + 1000 * Suc (k div 1000) \<le> Suc (t0 + k)) = (1000 * Suc (k div 1000) \<le> Suc k)"
proof -
  have "(t0 + a \<le> Suc (t0 + k)) = (a \<le> Suc k)" for a :: nat by simp
  then show ?thesis .
qed

lemma elapse_ms_due_step:
  assumes iv: "filter is_interval (timers s) = [Interval i (t0 + 1000 * Suc (k div 1000))]"
    and nw: "now s = t0 + k"
  shows "filter is_interval (timers (elapse_ms s)) =
           [Interval i (t0 + 1000 * Suc (Suc k div 1000))]"
proof -
  have "filter is_interval (timers (elapse_ms s)) =
      [Interval i (if t0 + 1000 * Suc (k div 1000) \<le> Suc (t0 + k) then Suc (t0 + k) + 1000
                   else t0 + 1000 * Suc (k div 1000))]"
    using elapse_ms_single_interval(2) [OF iv] by (simp only: nw)
  then show ?thesis by (simp only: next_due)
qed

lemma elapse_due:
  assumes "filter is_interval (timers s) = [Interval i (t0 + 1000 * Suc (k div 1000))]"
    and "now s = t0 + k"
  shows "filter is_interval (timers (elapse n s)) =
           [Interval i (t0 + 1000 * Suc ((k + n) div 1000))]"
  using assms
proof (induction n arbitrary: s k)
  case 0
  then show ?case by (simp only: elapse.simps add_0_right)
next
  case (Suc n)
  have nw: "now (elapse_ms s) = t0 + Suc k"
    by (simp only: now_elapse_ms Suc.prems(2) add_Suc_right)
  have "filter is_interval (timers (elapse n (elapse_ms s))) =
      [Interval i (t0 + 1000 * Suc ((Suc k + n) div 1000))]"
    by (rule Suc.IH [OF elapse_ms_due_step [OF Suc.prems] nw])
  then show ?case by (simp only: elapse.simps add_Suc_shift)
qed

lemma elapse_ms_period_step:
  assumes iv: "filter is_interval (timers s) = [Interval i (t0 + 1000 * Suc (k div 1000))]"
    and nw: "now s = t0 + k" and v: "videoRef s = Some v" and c: "dataConnRef s = Some c"
  shows "filter is_interval (timers (elapse_ms s)) =
           [Interval i (t0 + 1000 * Suc (Suc k div 1000))]"
    and "sent_on (elapse_ms s) c =
           sent_on s c @
             (if conn_open s c
              then replicate (Suc k div 1000 - k div 1000)
                     \<lparr>ctype = HEARTBEAT, timestamp = currentTime v\<rparr>
              else [])"
proof -
  have "filter is_interval (timers (elapse_ms s)) =
      [Interval i (if t0 + 1000 * Suc (k div 1000) \<le> Suc (t0 + k) then Suc (t0 + k) + 1000
                   else t0 + 1000 * Suc (k div 1000))]"
    using elapse_ms_single_interval(2) [OF iv] by (simp only: nw)
  then show "filter is_interval (timers (elapse_ms s)) =
           [Interval i (t0 + 1000 * Suc (Suc k div 1000))]"
    by (simp only: next_due)
  have cn: "conns (elapse_ms s) =
      (if 1000 * Suc (k div 1000) \<le> Suc k then conns (heartbeat_tick s) else conns s)"
    using elapse_ms_single_interval(1) [OF iv] by (simp only: nw due_now)
  show "sent_on (elapse_ms s) c =
           sent_on s c @
             (if conn_open s c
              then replicate (Suc k div 1000 - k div 1000)
                     \<lparr>ctype = HEARTBEAT, timestamp = currentTime v\<rparr>
              else [])"
  proof (cases "1000 * Suc (k div 1000) \<le> Suc k")
    case True
    with cn have "conns (elapse_ms s) = conns (heartbeat_tick s)" by (simp only: if_True)
    then have "sent_on (elapse_ms s) c = sent_on (heartbeat_tick s) c" by (rule sent_on_cong)
    also have "\<dots> = sent_on s c @
        (if conn_open s c then [\<lparr>ctype = HEARTBEAT, timestamp = currentTime v\<rparr>] else [])"
      by (rule sent_on_heartbeat_tick [OF v c])
    finally show ?thesis
      by (simp only: ticks_now True if_True replicate.simps One_nat_def)
  next
    case False
    with cn have "conns (elapse_ms s) = conns s" by (simp only: if_False)
    then have "sent_on (elapse_ms s) c = sent_on s c" by (rule sent_on_cong)
    then show ?thesis
      by (simp only: ticks_now False if_False replicate.simps if_cancel append_Nil2)
  qed
qed

lemma elapse_period:
  assumes "filter is_interval (timers s) = [Interval i (t0 + 1000 * Suc (k div 1000))]"
    and "now s = t0 + k" and "videoRef s = Some v" and "dataConnRef s = Some c"
  shows "sent_on (elapse n s) c =
           sent_on s c @
             (if conn_open s c
              then replicate ((k + n) div 1000 - k div 1000)
                     \<lparr>ctype = HEARTBEAT, timestamp = currentTime v\<rparr>
              else [])"
  using assms
proof (induction n arbitrary: s k)
  case 0
  have "(k + 0) div 1000 - k div 1000 = 0" by (simp only: add_0_right diff_self_eq_0)
  then show ?case by (simp only: elapse.simps replicate.simps if_cancel append_Nil2)
next
  case (Suc n)
  let ?s1 = "elapse_ms s"
  let ?hb = "\<lparr>ctype = HEARTBEAT, timestamp = currentTime v\<rparr>"
  note st = elapse_ms_period_step [OF Suc.prems]
  have nw: "now ?s1 = t0 + Suc k" by (simp only: now_elapse_ms Suc.prems(2) add_Suc_right)
  have vr: "videoRef ?s1 = Some v" by (simp only: elapse_ms_view Suc.prems(3))
  have dc: "dataConnRef ?s1 = Some c" by (simp only: elapse_ms_frame Suc.prems(4))
  have op: "conn_open ?s1 c = conn_open s c" by (rule elapse_ms_frame(2))
  have ih: "sent_on (elapse n ?s1) c =
           sent_on ?s1 c @
             (if conn_open ?s1 c
              then replicate ((Suc k + n) div 1000 - Suc k div 1000) ?hb
              else [])"
    by (rule Suc.IH [OF st(1) nw vr dc])
  show ?case
  proof (cases "conn_open s c")
    case True
    have "sent_on (elapse (Suc n) s) c =
        (sent_on s c @ replicate (Suc k div 1000 - k div 1000) ?hb) @
          replicate ((Suc k + n) div 1000 - Suc k div 1000) ?hb"
      using ih st(2) True by (simp only: elapse.simps op if_True)
    also have "\<dots> = sent_on s c @
        replicate ((Suc k div 1000 - k div 1000) + ((Suc k + n) div 1000 - Suc k div 1000)) ?hb"
      by (simp only: append_assoc replicate_add)
    finally show ?thesis using True by (simp only: ticks_sum if_True)
  next
    case False
    have "sent_on (elapse (Suc n) s) c = sent_on s c"
      using ih st(2) False by (simp only: elapse.simps op if_False append_Nil2)
    with False show ?thesis by (simp only: if_False append_Nil2)
  qed
qed

lemma startHeartbeat_frame:
  "conns (startHeartbeat s) = conns s"
  "videoRef (startHeartbeat s) = videoRef s"
  "remoteVideoRef (startHeartbeat s) = remoteVideoRef s"
  "dataConnRef (startHeartbeat s) = dataConnRef s"
  "isHost (startHeartbeat s) = isHost s"
  "view (startHeartbeat s) = view s"
  "now (startHeartbeat s) = now s"
  "isRemoteOp (startHeartbeat s) = isRemoteOp s"
  by (simp_all add: startHeartbeat_def setInterval_1000_def clearInterval_def addLog_def Let_def
      split: option.splits)

lemma stopHeartbeat_frame:
  "conns (stopHeartbeat s) = conns s"
  "videoRef (stopHeartbeat s) = videoRef s"
  "remoteVideoRef (stopHeartbeat s) = remoteVideoRef s"
  "dataConnRef (stopHeartbeat s) = dataConnRef s"
  "isHost (stopHeartbeat s) = isHost s"
  "view (stopHeartbeat s) = view s"
  "now (stopHeartbeat s) = now s"
  "isRemoteOp (stopHeartbeat s) = isRemoteOp s"
  by (simp_all add: stopHeartbeat_def clearInterval_def addLog_def split: option.splits)

lemma heartbeat_after_start:
  assumes wf: "heartbeat_wf s" and v: "videoRef s = Some v" and c: "dataConnRef s = Some c"
  shows "sent_on (elapse n (startHeartbeat s)) c =
           sent_on s c @
             (if conn_open s c
              then replicate (n div 1000) \<lparr>ctype = HEARTBEAT, timestamp = currentTime v\<rparr>
              else [])"
proof -
  let ?s1 = "startHeartbeat s"
  have z: "(0::nat) div 1000 = 0" by simp
  have iv: "filter is_interval (timers ?s1) =
      [Interval (next_timer s) (now s + 1000 * Suc (0 div 1000))]"
    using startHeartbeat_intervals(1) [OF wf] by (simp only: z mult_Suc_right mult_0_right add_0_right add_0)
  have nw: "now ?s1 = now s + 0" by (simp only: startHeartbeat_frame add_0_right)
  have vr: "videoRef ?s1 = Some v" by (simp only: startHeartbeat_frame v)
  have dc: "dataConnRef ?s1 = Some c" by (simp only: startHeartbeat_frame c)
  have op: "conn_open ?s1 c = conn_open s c" by (simp add: conn_open_def startHeartbeat_frame)
  have so: "sent_on ?s1 c = sent_on s c" by (rule sent_on_cong) (rule startHeartbeat_frame)
  from elapse_period [OF iv nw vr dc] show ?thesis
    by (simp only: op so z add_0 diff_zero)
qed

lemma conn_closes_stops:
  assumes wf: "heartbeat_wf s" and cw: "conn_wf s" and c: "dataConnRef s = Some c"
    and op: "conn_open s c"
  shows "heartbeatInterval (conn_closes c s) = None"
    and "filter is_interval (timers (conn_closes c s)) = []"
    and "\<not> conn_open (conn_closes c s) c"
proof -
  from cw c obtain k where k: "conns s c = Some k" "handlers k"
    by (auto simp add: conn_wf_iff)
  from op k have nc: "cstate k \<noteq> Closed" by (simp add: conn_open_def)
  let ?s1 = "addLog Connection_closed (s\<lparr>conns := (conns s)(c \<mapsto> k\<lparr>cstate := Closed\<rparr>)\<rparr>)"
  have eq: "conn_closes c s = stopHeartbeat ?s1"
    using k nc by (simp add: conn_closes_def conn_on_close_def Let_def)
  from wf have wf1: "heartbeat_wf ?s1" by simp
  show "heartbeatInterval (conn_closes c s) = None"
    unfolding eq by (rule stopHeartbeat_intervals(2) [OF wf1])
  show "filter is_interval (timers (conn_closes c s)) = []"
    unfolding eq by (rule stopHeartbeat_intervals(1) [OF wf1])
  show "\<not> conn_open (conn_closes c s) c"
    unfolding eq by (simp add: conn_open_def stopHeartbeat_frame addLog_def)
qed

lemma conn_errors_stops:
  assumes wf: "heartbeat_wf s" and cw: "conn_wf s" and c: "dataConnRef s = Some c"
  shows "heartbeatInterval (conn_errors c s) = None"
    and "filter is_interval (timers (conn_errors c s)) = []"
proof -
  from cw c obtain k where k: "conns s c = Some k" "handlers k"
    by (auto simp add: conn_wf_iff)
  let ?s1 = "addLog DataConn_error s"
  have eq: "conn_errors c s = stopHeartbeat ?s1"
    using k by (simp add: conn_errors_def conn_on_error_def)
  from wf have wf1: "heartbeat_wf ?s1" by simp
  show "heartbeatInterval (conn_errors c s) = None"
    unfolding eq by (rule stopHeartbeat_intervals(2) [OF wf1])
  show "filter is_interval (timers (conn_errors c s)) = []"
    unfolding eq by (rule stopHeartbeat_intervals(1) [OF wf1])
qed

subsection \<open>Commands applied by the Host\<close>



subsection \<open>Commands applied by the Client\<close>

text \<open>
  C8. On a Client, handling a command whose type is not \<^verbatim>\<open>HEARTBEAT\<close> (so \<^verbatim>\<open>PLAY\<close>,
  \<^verbatim>\<open>PAUSE\<close> and \<^verbatim>\<open>SEEK\<close>) changes nothing at all, the position of the Client's player
  included; the \<^verbatim>\<open>data\<close> handler that delivers it only logs its receipt.
\<close>

theorem client_ignores_non_heartbeat:
  assumes "\<not> isHost s" and "rtype cmd \<noteq> TypeStr ''HEARTBEAT''"
  shows "handleSyncCommand cmd s = s \<and>
         remoteVideoRef (conn_on_data (DObj cmd) s) = remoteVideoRef s \<and>
         conn_on_data (DObj cmd) s = addLog (Received (rtype cmd)) s"
  using assms
  by (simp add: handleSyncCommand_def conn_on_data_def addLog_def split: option.splits)

theorem client_ignores_non_heartbeat_witness:
  "handleSyncCommand \<lparr>rtype = TypeStr ''SEEK'', rtimestamp = TsNum (Num 10)\<rparr> (client_at 8)
     = client_at 8 \<and>
   remoteVideoRef (conn_on_data (DObj \<lparr>rtype = TypeStr ''SEEK'', rtimestamp = TsNum (Num 10)\<rparr>)
      (client_at 8))
     = Some (new_video\<lparr>currentTime := 8, paused := False\<rparr>)"
  using client_ignores_non_heartbeat [of "client_at 8"
      "\<lparr>rtype = TypeStr ''SEEK'', rtimestamp = TsNum (Num 10)\<rparr>"]
  by (simp add: client_at_simps addLog_def)




subsection \<open>Sending commands and the loop guard\<close>



subsection \<open>The heartbeat scheduler\<close>

text \<open>
  C5. A tick of the heartbeat timer with the Host's video element mounted and the control
  channel open sends one \<^verbatim>\<open>HEARTBEAT\<close> that carries the element's current position, and
  does nothing else. A tick with no element, no connection or a connection that is not
  open leaves the state as it is: no log, nothing queued. Started in any reachable state,
  the timer has sent exactly \<open>n div 1000\<close> heartbeats after \<open>n\<close> ms over an open channel (the
  player resting at position \<open>v\<close>), and none over a channel that is not open. When the
  control channel closes or reports an error, the timer is cleared and the stored handle
  is null, and from then on the passing of time sends nothing.
\<close>

theorem heartbeat_scheduler_contract:
  "(videoRef s = Some v \<and> dataConnRef s = Some c \<and> conn_open s c \<longrightarrow>
      heartbeat_tick s = conn_send c \<lparr>ctype = HEARTBEAT, timestamp = currentTime v\<rparr> s \<and>
      sent_on (heartbeat_tick s) c =
        sent_on s c @ [\<lparr>ctype = HEARTBEAT, timestamp = currentTime v\<rparr>]) \<and>
   (videoRef s = None \<or> dataConnRef s = None \<or> (dataConnRef s = Some c \<and> \<not> conn_open s c) \<longrightarrow>
      heartbeat_tick s = s) \<and>
   (videoRef (run evs init) = Some v \<and> dataConnRef (run evs init) = Some c \<longrightarrow>
      sent_on (elapse n (startHeartbeat (run evs init))) c =
        sent_on (run evs init) c @
          (if conn_open (run evs init) c
           then replicate (n div 1000) \<lparr>ctype = HEARTBEAT, timestamp = currentTime v\<rparr>
           else [])) \<and>
   (dataConnRef (run evs init) = Some c \<and> conn_open (run evs init) c \<longrightarrow>
      heartbeatInterval (step (ConnClose c) (run evs init)) = None \<and>
      filter is_interval (timers (step (ConnClose c) (run evs init))) = [] \<and>
      conns (elapse n (step (ConnClose c) (run evs init))) =
        conns (step (ConnClose c) (run evs init))) \<and>
   (dataConnRef (run evs init) = Some c \<longrightarrow>
      heartbeatInterval (step (ConnError c) (run evs init)) = None \<and>
      filter is_interval (timers (step (ConnError c) (run evs init))) = [] \<and>
      conns (elapse n (step (ConnError c) (run evs init))) =
        conns (step (ConnError c) (run evs init)))"
proof -
  let ?r = "run evs init"
  have wf: "heartbeat_wf ?r" and cw: "conn_wf ?r" using reachable_wf [of evs] by simp_all
  have p1: "videoRef s = Some v \<and> dataConnRef s = Some c \<and> conn_open s c \<longrightarrow>
      heartbeat_tick s = conn_send c \<lparr>ctype = HEARTBEAT, timestamp = currentTime v\<rparr> s \<and>
      sent_on (heartbeat_tick s) c =
        sent_on s c @ [\<lparr>ctype = HEARTBEAT, timestamp = currentTime v\<rparr>]"
  proof (intro impI, elim conjE)
    assume a: "videoRef s = Some v" "dataConnRef s = Some c" "conn_open s c"
    from a have "heartbeat_tick s =
        conn_send c \<lparr>ctype = HEARTBEAT, timestamp = currentTime v\<rparr> s"
      by (simp add: heartbeat_tick_def)
    moreover from a sent_on_heartbeat_tick [OF a(1,2)] have
      "sent_on (heartbeat_tick s) c =
         sent_on s c @ [\<lparr>ctype = HEARTBEAT, timestamp = currentTime v\<rparr>]"
      by simp
    ultimately show
      "heartbeat_tick s = conn_send c \<lparr>ctype = HEARTBEAT, timestamp = currentTime v\<rparr> s \<and>
       sent_on (heartbeat_tick s) c =
         sent_on s c @ [\<lparr>ctype = HEARTBEAT, timestamp = currentTime v\<rparr>]"
      by (rule conjI)
  qed
  have p2: "videoRef s = None \<or> dataConnRef s = None \<or>
      (dataConnRef s = Some c \<and> \<not> conn_open s c) \<longrightarrow> heartbeat_tick s = s"
    by (auto simp add: heartbeat_tick_def split: option.splits)
  have p3: "videoRef ?r = Some v \<and> dataConnRef ?r = Some c \<longrightarrow>
      sent_on (elapse n (startHeartbeat ?r)) c =
        sent_on ?r c @
          (if conn_open ?r c
           then replicate (n div 1000) \<lparr>ctype = HEARTBEAT, timestamp = currentTime v\<rparr>
           else [])"
    using heartbeat_after_start [OF wf] by blast
  have p4: "dataConnRef ?r = Some c \<and> conn_open ?r c \<longrightarrow>
      heartbeatInterval (step (ConnClose c) ?r) = None \<and>
      filter is_interval (timers (step (ConnClose c) ?r)) = [] \<and>
      conns (elapse n (step (ConnClose c) ?r)) = conns (step (ConnClose c) ?r)"
  proof (intro impI, elim conjE)
    assume a: "dataConnRef ?r = Some c" "conn_open ?r c"
    note st = conn_closes_stops [OF wf cw a]
    from st(1) st(2) elapse_no_interval [OF st(2), of n]
    show "heartbeatInterval (step (ConnClose c) ?r) = None \<and>
      filter is_interval (timers (step (ConnClose c) ?r)) = [] \<and>
      conns (elapse n (step (ConnClose c) ?r)) = conns (step (ConnClose c) ?r)"
      by simp
  qed
  have p5: "dataConnRef ?r = Some c \<longrightarrow>
      heartbeatInterval (step (ConnError c) ?r) = None \<and>
      filter is_interval (timers (step (ConnError c) ?r)) = [] \<and>
      conns (elapse n (step (ConnError c) ?r)) = conns (step (ConnError c) ?r)"
  proof
    assume a: "dataConnRef ?r = Some c"
    note st = conn_errors_stops [OF wf cw a]
    from st(1) st(2) elapse_no_interval [OF st(2), of n]
    show "heartbeatInterval (step (ConnError c) ?r) = None \<and>
      filter is_interval (timers (step (ConnError c) ?r)) = [] \<and>
      conns (elapse n (step (ConnError c) ?r)) = conns (step (ConnError c) ?r)"
      by simp
  qed
  from p1 p2 p3 p4 p5 show ?thesis by (intro conjI)
qed

theorem heartbeat_scheduler_contract_witness:
  "heartbeat_tick (host_connected 10) =
     conn_send 0 \<lparr>ctype = HEARTBEAT, timestamp = 10\<rparr> (host_connected 10) \<and>
   heartbeat_tick init = init \<and>
   sent_on (elapse 3000 (startHeartbeat (host_connected 10))) 0 =
     replicate 3 \<lparr>ctype = HEARTBEAT, timestamp = 10\<rparr> \<and>
   heartbeatInterval (step (ConnClose 0) (host_connected 10)) = None \<and>
   filter is_interval (timers (step (ConnClose 0) (host_connected 10))) = [] \<and>
   conns (elapse 3000 (step (ConnClose 0) (host_connected 10))) =
     conns (step (ConnClose 0) (host_connected 10)) \<and>
   heartbeatInterval (step (ConnError 0) (host_connected 10)) = None"
  using
    heartbeat_scheduler_contract [of "host_connected 10"
      "new_video\<lparr>currentTime := 10, paused := False\<rparr>" 0
      "[PeerLoaded, ClickHost, MediaState True 10 False, PeerConnection ''client'',
        ConnOpen 0 (Captured 1)]" 3000, folded host_connected_def]
    heartbeat_scheduler_contract [of init new_video 0 "[]" 0]
    init_no_conn
  by (simp add: host_connected_simps)

lemma fold_fire_no_video:
  "videoRef s = None \<Longrightarrow> conns (fold fire_timer ts s) = conns s"
proof (induction ts arbitrary: s)
  case Nil
  then show ?case by simp
next
  case (Cons t ts)
  from Cons.prems have "conns (fire_timer t s) = conns s"
    by (cases t) (simp_all add: heartbeat_tick_def)
  moreover from Cons.prems have "videoRef (fire_timer t s) = None"
    by (simp add: fire_timer_view)
  ultimately show ?case using Cons.IH [of "fire_timer t s"] by simp
qed

lemma elapse_no_video:
  "videoRef s = None \<Longrightarrow> conns (elapse n s) = conns s"
proof (induction n arbitrary: s)
  case 0
  then show ?case by simp
next
  case (Suc n)
  from Suc.prems have "conns (elapse_ms s) = conns s"
    by (simp add: elapse_ms_def Let_def fold_fire_no_video)
  moreover from Suc.prems have "videoRef (elapse_ms s) = None" by (simp add: elapse_ms_view)
  ultimately show ?case using Suc.IH [of "elapse_ms s"] by simp
qed

lemma elapse_ms_heartbeatInterval: "heartbeatInterval (elapse_ms s) = heartbeatInterval s"
proof -
  have "heartbeatInterval (fold fire_timer ts s') = heartbeatInterval s'" for ts s'
    by (induction ts arbitrary: s') (simp_all add: fire_timer_frame)
  then show ?thesis by (simp add: elapse_ms_def Let_def)
qed

lemma handleSyncCommand_heartbeatInterval:
  "heartbeatInterval (handleSyncCommand cmd s) = heartbeatInterval s"
  "isHost (handleSyncCommand cmd s) = isHost s"
  by (simp_all add: handleSyncCommand_def setTimeout_300_def addLog_def Let_def
      split: option.splits)

lemma stopHeartbeat_handle:
  "heartbeatInterval (stopHeartbeat s) = heartbeatInterval s \<or> heartbeatInterval (stopHeartbeat s) = None"
  by (simp add: stopHeartbeat_def addLog_def split: option.splits)

lemma step_client_no_start:
  "\<not> isHost (step e s) \<Longrightarrow>
   heartbeatInterval (step e s) = heartbeatInterval s \<or> heartbeatInterval (step e s) = None"
proof (cases e)
  case (ConnOpen c cap)
  assume "\<not> isHost (step e s)"
  then show ?thesis
    by (auto simp add: ConnOpen conn_opens_def setup_on_open_def inbound_on_open_def
        outbound_on_open_def addLog_def peer_call_def startHeartbeat_frame Let_def
        split: option.splits if_splits capture.splits)
next
  case (ConnData c d)
  show ?thesis
    by (simp add: ConnData conn_receives_def conn_on_data_def handleSyncCommand_heartbeatInterval
        addLog_def split: option.splits wire_data.splits)
next
  case (ConnClose c)
  have "heartbeatInterval (stopHeartbeat s') = heartbeatInterval s' \<or>
        heartbeatInterval (stopHeartbeat s') = None" for s'
    by (rule stopHeartbeat_handle)
  then show ?thesis
    by (auto simp add: ConnClose conn_closes_def conn_on_close_def addLog_def Let_def
        stopHeartbeat_def split: option.splits)
next
  case (ConnError c)
  show ?thesis
    by (auto simp add: ConnError conn_errors_def conn_on_error_def addLog_def
        stopHeartbeat_def split: option.splits)
next
  case (FileChange fo cap)
  assume "\<not> isHost (step e s)"
  then show ?thesis
    by (auto simp add: FileChange handleFileChange_def addLog_def peer_call_def
        startHeartbeat_frame Let_def split: option.splits if_splits capture.splits)
next
  case Millisecond
  show ?thesis by (simp add: Millisecond elapse_ms_heartbeatInterval)
qed (simp_all add: addLog_def peer_on_connection_def call_on_stream_def restartStream_def
    on_video_event_def sendCommand_def conn_send_def connectToHost_def media_state_def
    peer_call_def Let_def split: option.splits capture.splits)

text \<open>
  C4, as the code has it. In every reachable state at most one interval timer is alive.
  \<^verbatim>\<open>startHeartbeat\<close> clears the timer whose handle it holds before it sets the new one, so
  after one start and after two starts in a row exactly one interval timer is alive, the
  one whose handle is stored. No step that ends with the role Client starts a timer: after
  it the stored handle is the one before the step or null. And while the role is Client,
  the passing of time sends nothing over any connection.
\<close>

theorem heartbeat_single_and_host_only:
  "length (filter is_interval (timers (run evs init))) \<le> 1 \<and>
   filter is_interval (timers (startHeartbeat (run evs init))) =
     [Interval (next_timer (run evs init)) (now (run evs init) + 1000)] \<and>
   filter is_interval (timers (startHeartbeat (startHeartbeat (run evs init)))) =
     [Interval (Suc (next_timer (run evs init))) (now (run evs init) + 1000)] \<and>
   heartbeatInterval (startHeartbeat (startHeartbeat (run evs init))) =
     Some (Suc (next_timer (run evs init))) \<and>
   (\<not> isHost (step e (run evs init)) \<longrightarrow>
      heartbeatInterval (step e (run evs init)) = heartbeatInterval (run evs init) \<or>
      heartbeatInterval (step e (run evs init)) = None) \<and>
   (\<not> isHost (run evs init) \<longrightarrow> conns (elapse n (run evs init)) = conns (run evs init))"
proof -
  let ?r = "run evs init"
  have wf: "heartbeat_wf ?r" and vw: "view_wf ?r" using reachable_wf [of evs] by simp_all
  have "length (map timer_id (filter is_interval (timers ?r))) \<le> 1"
    using wf by (simp add: heartbeat_wf_def split: option.splits)
  then have p1: "length (filter is_interval (timers ?r)) \<le> 1" by simp
  note one = startHeartbeat_intervals [OF wf]
  have wf1: "heartbeat_wf (startHeartbeat ?r)" using wf by (rule startHeartbeat_wf)
  note two = startHeartbeat_intervals [OF wf1]
  have p3: "filter is_interval (timers (startHeartbeat (startHeartbeat ?r))) =
     [Interval (Suc (next_timer ?r)) (now ?r + 1000)]"
    using two(1) by (simp add: one(3) startHeartbeat_frame)
  have p4: "heartbeatInterval (startHeartbeat (startHeartbeat ?r)) = Some (Suc (next_timer ?r))"
    using two(2) by (simp add: one(3))
  have p5: "\<not> isHost (step e ?r) \<longrightarrow>
      heartbeatInterval (step e ?r) = heartbeatInterval ?r \<or> heartbeatInterval (step e ?r) = None"
    using step_client_no_start [of e ?r] by blast
  have p6: "\<not> isHost ?r \<longrightarrow> conns (elapse n ?r) = conns ?r"
  proof
    assume "\<not> isHost ?r"
    with vw have "videoRef ?r = None" by (auto simp add: view_wf_def split: if_splits)
    then show "conns (elapse n ?r) = conns ?r" by (rule elapse_no_video)
  qed
  from p1 one(1) p3 p4 p5 p6 show ?thesis by (intro conjI)
qed

theorem heartbeat_single_and_host_only_witness:
  "filter is_interval (timers (startHeartbeat (startHeartbeat (host_connected 10)))) =
     [Interval 3 1000] \<and>
   heartbeatInterval (startHeartbeat (startHeartbeat (host_connected 10))) = Some 3 \<and>
   heartbeatInterval (step Millisecond (client_at 8)) = None \<and>
   conns (elapse 5000 (client_at 8)) = conns (client_at 8)"
  using
    heartbeat_single_and_host_only [of
      "[PeerLoaded, ClickHost, MediaState True 10 False, PeerConnection ''client'',
        ConnOpen 0 (Captured 1)]" Millisecond 0, folded host_connected_def]
    heartbeat_single_and_host_only [of "[PeerLoaded, ClickClient, MediaState False 8 False]"
      Millisecond 5000, folded client_at_def]
  by (simp add: host_connected_simps host_connected_more client_at_simps client_at_more
      elapse_ms_view)

text \<open>
  A timer that was started as Host is not cleared by Exit, so it is still alive after the
  user has gone back to the landing view and joined as a Client: the role is Client, the
  interval timer with the handle 1 is pending, and 1000 ms later it has fired and is due
  again at 2000.
\<close>

theorem heartbeat_timer_survives_role_switch_counterexample:
  "isHost role_switched = False \<and> view role_switched = CLIENT \<and>
   heartbeatInterval role_switched = Some 1 \<and>
   timers role_switched = [Interval 1 1000] \<and>
   filter is_interval (timers (elapse 1000 role_switched)) = [Interval 1 2000]"
proof -
  have n: "now role_switched = 0"
    by (simp add: role_switched_def run_def host_connected_simps)
  have "filter is_interval (timers role_switched) = [Interval 1 (0 + 1000 * Suc (0 div 1000))]"
    by (simp add: role_switched_simps)
  from elapse_due [OF this, of 1000] n
  have "filter is_interval (timers (elapse 1000 role_switched)) = [Interval 1 2000]"
    by simp
  then show ?thesis by (simp add: role_switched_simps)
qed

subsection \<open>The role\<close>

lemma isHost_step_outside_landing:
  assumes "view_wf s" and "view s \<noteq> LANDING"
  shows "isHost (step e s) = isHost s"
  using assms
  by (cases e)
    (auto simp add: view_wf_def handler_defs elapse_ms_view
      split: option.splits if_splits capture.splits wire_data.splits)

text \<open>
  C6, as the code has it. While the Host view or the Client view is shown, no event changes
  the role: the one handler there that writes it, \<^verbatim>\<open>handleFileChange\<close>, writes Host in the
  Host view. Exit goes back to the landing view and keeps the role, the connection
  reference, the connections and the heartbeat timer as they are. On the landing view the
  two cards set the role to Host or to Client whatever it was, and leave the session alone.
\<close>

theorem role_fixed_outside_landing:
  "(view (run evs init) \<noteq> LANDING \<longrightarrow>
      isHost (step e (run evs init)) = isHost (run evs init)) \<and>
   isHost (step ClickExit s) = isHost s \<and>
   dataConnRef (step ClickExit s) = dataConnRef s \<and>
   conns (step ClickExit s) = conns s \<and>
   heartbeatInterval (step ClickExit s) = heartbeatInterval s \<and>
   timers (step ClickExit s) = timers s \<and>
   (view s = LANDING \<longrightarrow>
      isHost (step ClickHost s) \<and> \<not> isHost (step ClickClient s) \<and>
      dataConnRef (step ClickClient s) = dataConnRef s \<and>
      conns (step ClickClient s) = conns s \<and>
      timers (step ClickClient s) = timers s)"
proof -
  have vw: "view_wf (run evs init)" using reachable_wf [of evs] by simp
  have "view (run evs init) \<noteq> LANDING \<longrightarrow>
      isHost (step e (run evs init)) = isHost (run evs init)"
    using isHost_step_outside_landing [OF vw] by blast
  then show ?thesis by simp
qed

theorem role_fixed_outside_landing_witness:
  "isHost (step (FileChange (Some \<lparr>mime = ''video/mp4'', fname = ''film.mp4''\<rparr>) (Captured 1))
      (host_connected 10)) = True \<and>
   isHost (step ClickHost init) \<and> \<not> isHost (step ClickClient init)"
  using
    role_fixed_outside_landing [of
      "[PeerLoaded, ClickHost, MediaState True 10 False, PeerConnection ''client'',
        ConnOpen 0 (Captured 1)]"
      "FileChange (Some \<lparr>mime = ''video/mp4'', fname = ''film.mp4''\<rparr>) (Captured 1)" init,
      folded host_connected_def]
  by (simp add: host_connected_simps init_def)

text \<open>
  The role is reassigned while the session lives: the connected Host leaves through Exit
  (the landing view is shown, the role is still Host) and joins as a Client; the role is
  now Client, and the control channel of the Host session is still referenced and open.
\<close>

theorem role_reassigned_with_session_counterexample:
  "isHost (host_connected 0) \<and> dataConnRef (host_connected 0) = Some 0 \<and>
   isHost (step ClickExit (host_connected 0)) \<and>
   view (step ClickExit (host_connected 0)) = LANDING \<and>
   role_switched = step ClickClient (step ClickExit (host_connected 0)) \<and>
   \<not> isHost role_switched \<and> dataConnRef role_switched = Some 0 \<and>
   conn_open role_switched 0"
  by (simp add: role_switched_simps host_connected_simps)
    (simp add: role_switched_def run_def host_connected_simps)

subsection \<open>Inbound connections\<close>

text \<open>
  C7. The program keeps one reference to a control channel (\<^verbatim>\<open>dataConnRef\<close>, a handle or
  null) and no reference to a media call. Every inbound connection is stored in that
  reference, whatever it held: when the session of a reachable state is open and a second
  connection comes in, the reference holds the new connection, which is not yet open; the
  earlier connection is untouched, still open, and no longer referenced. The heartbeat
  timer is not touched either.
\<close>

theorem inbound_connection_last_writer_wins:
  "(peerRef s \<longrightarrow>
      dataConnRef (step (PeerConnection p) s) = Some (next_conn s) \<and>
      conns (step (PeerConnection p) s) (next_conn s) =
        Some \<lparr>peer = p, cstate = Connecting, inbound = True, handlers = True, sent = []\<rparr> \<and>
      heartbeatInterval (step (PeerConnection p) s) = heartbeatInterval s \<and>
      timers (step (PeerConnection p) s) = timers s) \<and>
   (peerRef (run evs init) \<and> dataConnRef (run evs init) = Some c \<and>
    conn_open (run evs init) c \<longrightarrow>
      dataConnRef (step (PeerConnection p) (run evs init)) = Some (next_conn (run evs init)) \<and>
      next_conn (run evs init) \<noteq> c \<and>
      conns (step (PeerConnection p) (run evs init)) c = conns (run evs init) c \<and>
      conn_open (step (PeerConnection p) (run evs init)) c \<and>
      \<not> conn_open (step (PeerConnection p) (run evs init)) (next_conn (run evs init)))"
proof -
  let ?r = "run evs init"
  have cw: "conn_wf ?r" using reachable_wf [of evs] by simp
  have p1: "peerRef s \<longrightarrow>
      dataConnRef (step (PeerConnection p) s) = Some (next_conn s) \<and>
      conns (step (PeerConnection p) s) (next_conn s) =
        Some \<lparr>peer = p, cstate = Connecting, inbound = True, handlers = True, sent = []\<rparr> \<and>
      heartbeatInterval (step (PeerConnection p) s) = heartbeatInterval s \<and>
      timers (step (PeerConnection p) s) = timers s"
    by (simp add: peer_on_connection_def)
  have p2: "peerRef ?r \<and> dataConnRef ?r = Some c \<and> conn_open ?r c \<longrightarrow>
      dataConnRef (step (PeerConnection p) ?r) = Some (next_conn ?r) \<and>
      next_conn ?r \<noteq> c \<and>
      conns (step (PeerConnection p) ?r) c = conns ?r c \<and>
      conn_open (step (PeerConnection p) ?r) c \<and>
      \<not> conn_open (step (PeerConnection p) ?r) (next_conn ?r)"
  proof (intro impI, elim conjE)
    assume a: "peerRef ?r" "dataConnRef ?r = Some c" "conn_open ?r c"
    from a(3) have "conns ?r c \<noteq> None" by (auto simp add: conn_open_def split: option.splits)
    with cw have ne: "next_conn ?r \<noteq> c" by (auto simp add: conn_wf_iff)
    with a show "dataConnRef (step (PeerConnection p) ?r) = Some (next_conn ?r) \<and>
      next_conn ?r \<noteq> c \<and>
      conns (step (PeerConnection p) ?r) c = conns ?r c \<and>
      conn_open (step (PeerConnection p) ?r) c \<and>
      \<not> conn_open (step (PeerConnection p) ?r) (next_conn ?r)"
      by (simp add: peer_on_connection_def conn_open_def)
  qed
  from p1 p2 show ?thesis by (rule conjI)
qed

theorem inbound_connection_last_writer_wins_witness:
  "dataConnRef (step (PeerConnection ''second'') (host_connected 10)) = Some 1 \<and>
   conns (step (PeerConnection ''second'') (host_connected 10)) 0 = conns (host_connected 10) 0 \<and>
   conn_open (step (PeerConnection ''second'') (host_connected 10)) 0 \<and>
   \<not> conn_open (step (PeerConnection ''second'') (host_connected 10)) 1"
  using
    inbound_connection_last_writer_wins [of "host_connected 10" "''second''"
      "[PeerLoaded, ClickHost, MediaState True 10 False, PeerConnection ''client'',
        ConnOpen 0 (Captured 1)]" 0, folded host_connected_def]
  by (simp add: host_connected_simps host_connected_more)

subsection \<open>The repair operation\<close>






subsection \<open>Inbound messages\<close>

lemma handleSyncCommand_positions:
  assumes "\<forall>r. to_number (rtimestamp cmd) \<noteq> Num r"
  shows "map_option currentTime (videoRef (handleSyncCommand cmd s)) =
           map_option currentTime (videoRef s)"
    and "map_option seeks (videoRef (handleSyncCommand cmd s)) = map_option seeks (videoRef s)"
    and "remoteVideoRef (handleSyncCommand cmd s) = remoteVideoRef s"
  using assms
  by (cases "to_number (rtimestamp cmd)";
      auto simp add: handleSyncCommand_def host_exec_def set_currentTime_def setTimeout_300_def
        addLog_def Let_def split: option.splits)+

text \<open>
  C3, as the code has it. The \<^verbatim>\<open>data\<close> handler decodes nothing: a message that is an
  object is logged (unless its type is \<^verbatim>\<open>HEARTBEAT\<close>) and handed to
  \<^verbatim>\<open>handleSyncCommand\<close> as it is; a \<^verbatim>\<open>null\<close> message throws at the property read, before
  any effect. A timestamp that does not convert to a finite number never changes a
  position: whatever the type of the command, the position of both video elements and
  the number of assignments to \<^verbatim>\<open>currentTime\<close> are as before (NaN fails both comparisons,
  and the setter throws on an infinity). So \<^verbatim>\<open>{ type: "SEEK", timestamp: "abc" }\<close>
  moves no player.
\<close>

theorem data_handler_forwards_unvalidated:
  "conn_on_data (DObj cmd) s =
     handleSyncCommand cmd
       (if rtype cmd \<noteq> TypeStr ''HEARTBEAT'' then addLog (Received (rtype cmd)) s else s) \<and>
   conn_on_data DNull s = s\<lparr>uncaught := Suc (uncaught s)\<rparr> \<and>
   ((\<forall>r. to_number (rtimestamp cmd) \<noteq> Num r) \<longrightarrow>
      map_option currentTime (videoRef (step (ConnData c (DObj cmd)) s)) =
        map_option currentTime (videoRef s) \<and>
      map_option seeks (videoRef (step (ConnData c (DObj cmd)) s)) =
        map_option seeks (videoRef s) \<and>
      remoteVideoRef (step (ConnData c (DObj cmd)) s) = remoteVideoRef s)"
proof -
  have p3: "(\<forall>r. to_number (rtimestamp cmd) \<noteq> Num r) \<longrightarrow>
      map_option currentTime (videoRef (step (ConnData c (DObj cmd)) s)) =
        map_option currentTime (videoRef s) \<and>
      map_option seeks (videoRef (step (ConnData c (DObj cmd)) s)) =
        map_option seeks (videoRef s) \<and>
      remoteVideoRef (step (ConnData c (DObj cmd)) s) = remoteVideoRef s"
  proof
    assume a: "\<forall>r. to_number (rtimestamp cmd) \<noteq> Num r"
    note h = handleSyncCommand_positions [OF a]
    show "map_option currentTime (videoRef (step (ConnData c (DObj cmd)) s)) =
        map_option currentTime (videoRef s) \<and>
      map_option seeks (videoRef (step (ConnData c (DObj cmd)) s)) =
        map_option seeks (videoRef s) \<and>
      remoteVideoRef (step (ConnData c (DObj cmd)) s) = remoteVideoRef s"
      by (simp add: conn_receives_def conn_on_data_def h addLog_def split: option.splits)
  qed
  then show ?thesis by (simp add: conn_on_data_def)
qed

theorem data_handler_forwards_unvalidated_witness:
  "map_option currentTime
     (videoRef (step (ConnData 0 (DObj \<lparr>rtype = TypeStr ''SEEK'', rtimestamp = TsNonNumeric ''abc''\<rparr>))
        (host_connected 10))) = Some 10 \<and>
   map_option seeks
     (videoRef (step (ConnData 0 (DObj \<lparr>rtype = TypeStr ''SEEK'', rtimestamp = TsNonNumeric ''abc''\<rparr>))
        (host_connected 10))) = Some 0"
  using
    data_handler_forwards_unvalidated [of
      "\<lparr>rtype = TypeStr ''SEEK'', rtimestamp = TsNonNumeric ''abc''\<rparr>" "host_connected 10" 0]
  by (simp add: host_connected_simps new_video_def)

text \<open>
  No decode error is reported and malformed payloads reach the player: on the connected
  Host, \<^verbatim>\<open>{ type: "SEEK", timestamp: "abc" }\<close> is logged as received and as executed and
  activates the loop guard; \<^verbatim>\<open>{ type: "PAUSE", timestamp: "abc" }\<close> pauses the player; a
  message without a type is executed as well and activates the loop guard.
\<close>

theorem malformed_payload_applied_counterexample:
  "logs (step (ConnData 0 (DObj \<lparr>rtype = TypeStr ''SEEK'', rtimestamp = TsNonNumeric ''abc''\<rparr>))
      (host_connected 10)) =
     logs (host_connected 10) @ [Received (TypeStr ''SEEK''), Exec (TypeStr ''SEEK'')] \<and>
   isRemoteOp (host_connected 10) = False \<and>
   isRemoteOp (step (ConnData 0 (DObj \<lparr>rtype = TypeStr ''SEEK'', rtimestamp = TsNonNumeric ''abc''\<rparr>))
      (host_connected 10)) = True \<and>
   map_option paused (videoRef (host_connected 10)) = Some False \<and>
   map_option paused
     (videoRef (step (ConnData 0 (DObj \<lparr>rtype = TypeStr ''PAUSE'', rtimestamp = TsNonNumeric ''abc''\<rparr>))
        (host_connected 10))) = Some True \<and>
   logs (step (ConnData 0 (DObj \<lparr>rtype = TypeMissing, rtimestamp = TsNum (Num 3)\<rparr>))
      (host_connected 10)) =
     logs (host_connected 10) @ [Received TypeMissing, Exec TypeMissing] \<and>
   isRemoteOp (step (ConnData 0 (DObj \<lparr>rtype = TypeMissing, rtimestamp = TsNum (Num 3)\<rparr>))
      (host_connected 10)) = True"
  by (simp add: conn_receives_def conn_on_data_def handleSyncCommand_def host_exec_def
      setTimeout_300_def addLog_def host_connected_simps host_connected_peer new_video_def)

end
